theory Spec2Isabelle
  imports Complex_Main
begin

section \<open>Python values used by the program\<close>

subsection \<open>Decimal strings of integers\<close>

text \<open>
  \<^verbatim>\<open>f"{info['likes']}"\<close> and \<^verbatim>\<open>%Y\<close> write an integer in decimal, as
  Python's \<^verbatim>\<open>str\<close> does: no leading zeros, a leading \<^verbatim>\<open>-\<close> for a negative number.
\<close>

definition digit_char :: "nat \<Rightarrow> char" where
  "digit_char d = char_of (48 + d)"

fun str_nat :: "nat \<Rightarrow> string" where
  "str_nat n = (if n < 10 then [digit_char n] else str_nat (n div 10) @ [digit_char (n mod 10)])"

definition str_int :: "int \<Rightarrow> string" where
  "str_int i = (if i < 0 then CHR ''-'' # str_nat (nat (- i)) else str_nat (nat i))"

subsection \<open>Broken-down time and the format \<^verbatim>\<open>%d_%m_%Y\<close>\<close>

text \<open>
  \<^verbatim>\<open>time.localtime\<close> is the standard library's: it turns seconds since the epoch into a
  broken-down local time, and raises (\<^verbatim>\<open>OverflowError\<close>, \<^verbatim>\<open>OSError\<close>) on a timestamp
  the platform cannot convert. The program's functions take it as the parameter
  \<open>localtime\<close>, since its value depends on the time zone of the process.
\<close>

record struct_time =
  tm_year :: int
  tm_mon :: nat
  tm_mday :: nat
  tm_hour :: nat
  tm_min :: nat
  tm_sec :: nat

definition calendar_date :: "struct_time \<Rightarrow> int \<times> nat \<times> nat" where
  "calendar_date tm = (tm_year tm, tm_mon tm, tm_mday tm)"

text \<open>\<^verbatim>\<open>%d\<close> and \<^verbatim>\<open>%m\<close>: a decimal number padded with a zero to two digits.\<close>

definition pad2 :: "nat \<Rightarrow> string" where
  "pad2 n = (if n < 10 then CHR ''0'' # str_nat n else str_nat n)"

text \<open>\<^verbatim>\<open>time.strftime('%d_%m_%Y', tm)\<close>.\<close>

definition strftime_d_m_Y :: "struct_time \<Rightarrow> string" where
  "strftime_d_m_Y tm = pad2 (tm_mday tm) @ ''_'' @ pad2 (tm_mon tm) @ ''_'' @ str_int (tm_year tm)"

text \<open>
  The local time of a zone that is a constant number of seconds east of UTC (no daylight
  saving): the day number since 1970-01-01 is turned into a civil date of the proleptic
  Gregorian calendar. \<open>localtime_fixed 0\<close> is \<^verbatim>\<open>time.localtime\<close> under \<^verbatim>\<open>TZ=UTC\<close>.
\<close>

definition civil_from_days :: "int \<Rightarrow> int \<times> nat \<times> nat" where
  "civil_from_days z =
     (let z1 = z + 719468;
          era = z1 div 146097;
          doe = z1 - era * 146097;
          yoe = (doe - doe div 1460 + doe div 36524 - doe div 146096) div 365;
          doy = doe - (365 * yoe + yoe div 4 - yoe div 100);
          mp = (5 * doy + 2) div 153;
          d = doy - (153 * mp + 2) div 5 + 1;
          m = (if mp < 10 then mp + 3 else mp - 9);
          y = yoe + era * 400 + (if m \<le> 2 then 1 else 0)
      in (y, nat m, nat d))"

datatype exn =
    SystemExit "int option"
  | TypeError
  | KeyError
  | AttributeError
  | JSONDecodeError
  | RequestException
  | OverflowError
  | OSError
  | EOFError

definition localtime_fixed :: "int \<Rightarrow> int \<Rightarrow> exn + struct_time" where
  "localtime_fixed offset t =
     (let s = t + offset; (y, m, d) = civil_from_days (s div 86400); r = s mod 86400
      in Inr \<lparr>tm_year = y, tm_mon = m, tm_mday = d,
              tm_hour = nat (r div 3600), tm_min = nat (r mod 3600 div 60), tm_sec = nat (r mod 60)\<rparr>)"

section \<open>The naming of the files in \<^verbatim>\<open>DiskClient.upload_files\<close>\<close>

text \<open>
  An element of \<^verbatim>\<open>files_info\<close>: the dictionary \<^verbatim>\<open>get_photos_info\<close> builds, with the keys
  \<^verbatim>\<open>likes\<close>, \<^verbatim>\<open>url\<close>, \<^verbatim>\<open>date\<close>, \<^verbatim>\<open>height\<close>, \<^verbatim>\<open>width\<close>; the numbers are Python integers.
\<close>

record info =
  likes :: int
  url :: string
  date :: int
  height :: int
  width :: int

text \<open>\<^verbatim>\<open>names = [info['likes'] for info in files_info]\<close>\<close>

definition names :: "info list \<Rightarrow> int list" where
  "names files_info = map likes files_info"

text \<open>
  \<^verbatim>\<open>duplicate_names = {name if names.count(name) > 1 else None for name in names}\<close>:
  a set of integers and \<^verbatim>\<open>None\<close>.
\<close>

definition duplicate_names :: "info list \<Rightarrow> int option set" where
  "duplicate_names files_info =
     (\<lambda>name. if count_list (names files_info) name > 1 then Some name else None)
       ` set (names files_info)"

text \<open>
  The two lines of the loop body that choose the name of one file:
  \<^verbatim>\<open>base_name = f"{info['likes']}"\<close> and
  \<^verbatim>\<open>filename = base_name + f"-{time.strftime('%d_%m_%Y', time.localtime(info['date']))}"
     if info['likes'] in duplicate_names else base_name\<close>.
  The conditional expression evaluates \<^verbatim>\<open>time.localtime\<close> only in its first branch.
\<close>

definition filename :: "(int \<Rightarrow> exn + struct_time) \<Rightarrow> int option set \<Rightarrow> info \<Rightarrow> exn + string" where
  "filename localtime dups info =
     (let base_name = str_int (likes info) in
      if Some (likes info) \<in> dups
      then (case localtime (date info) of
              Inl e \<Rightarrow> Inl e
            | Inr tm \<Rightarrow> Inr (base_name @ ''-'' @ strftime_d_m_Y tm))
      else Inr base_name)"

text \<open>The name the loop computes for each element of \<^verbatim>\<open>files_info\<close>, in order.\<close>

definition assigned_names :: "(int \<Rightarrow> exn + struct_time) \<Rightarrow> info list \<Rightarrow> (exn + string) list" where
  "assigned_names localtime files_info =
     map (filename localtime (duplicate_names files_info)) files_info"

text \<open>
  The example of three photographs: 5, 5 and 7 likes, uploaded on 2021-05-01 10:00,
  2021-05-02 10:00 and 2021-05-01 12:00 UTC.
\<close>

definition example_files_info :: "info list" where
  "example_files_info =
     [\<lparr>likes = 5, url = ''https://sun9-1.userapi.com/a.jpg'', date = 1619863200,
       height = 1080, width = 1920\<rparr>,
      \<lparr>likes = 5, url = ''https://sun9-1.userapi.com/b.jpg'', date = 1619949600,
       height = 720, width = 1280\<rparr>,
      \<lparr>likes = 7, url = ''https://sun9-1.userapi.com/c.jpg'', date = 1619870400,
       height = 600, width = 800\<rparr>]"

text \<open>Two photographs with 3 likes each, uploaded at 10:00 and at 12:00 UTC of 2021-05-01.\<close>

definition example_same_day :: "info list" where
  "example_same_day =
     [\<lparr>likes = 3, url = ''https://sun9-1.userapi.com/d.jpg'', date = 1619863200,
       height = 1080, width = 1920\<rparr>,
      \<lparr>likes = 3, url = ''https://sun9-1.userapi.com/e.jpg'', date = 1619870400,
       height = 1080, width = 1920\<rparr>]"

section \<open>Responses, requests and the trace of a run\<close>

text \<open>
  The value \<^verbatim>\<open>response.json()\<close> returns. The numbers the two services send in the fields
  the program reads are integers.
\<close>

datatype json =
    JNull
  | JBool bool
  | JNum int
  | JStr string
  | JArr "json list"
  | JObj "(string \<times> json) list"

text \<open>\<^verbatim>\<open>obj[key]\<close> with a string key: only a dictionary that has the key answers.\<close>

fun subscript :: "json \<Rightarrow> string \<Rightarrow> exn + json" where
  "subscript (JObj kvs) key = (case map_of kvs key of None \<Rightarrow> Inl KeyError | Some v \<Rightarrow> Inr v)"
| "subscript _ key = Inl TypeError"

text \<open>\<^verbatim>\<open>obj.get(key)\<close>: \<^verbatim>\<open>None\<close> for a missing key; only a dictionary has the method.\<close>

fun dict_get :: "json \<Rightarrow> string \<Rightarrow> exn + json" where
  "dict_get (JObj kvs) key = (case map_of kvs key of None \<Rightarrow> Inr JNull | Some v \<Rightarrow> Inr v)"
| "dict_get _ key = Inl AttributeError"

text \<open>
  A \<^verbatim>\<open>requests\<close> response: its status code and its body as \<^verbatim>\<open>response.json()\<close> decodes it,
  \<open>None\<close> for a body that is not JSON.
\<close>

record response =
  status_code :: int
  json_body :: "json option"

definition response_json_of :: "response \<Rightarrow> exn + json" where
  "response_json_of response =
     (case json_body response of None \<Rightarrow> Inl JSONDecodeError | Some j \<Rightarrow> Inr j)"

datatype http_method = GET | PUT | POST

record request =
  http_method :: http_method
  target :: string
  params :: "(string \<times> string) list"
  headers :: "(string \<times> string) list"

record item =
  item_name :: string
  item_href :: json
  item_height :: int
  item_width :: int

text \<open>
  \<^verbatim>\<open>output_json\<close>: the keys \<^verbatim>\<open>href\<close>, \<^verbatim>\<open>name\<close>, \<^verbatim>\<open>date\<close>, \<^verbatim>\<open>count\<close>, \<^verbatim>\<open>items\<close>;
  \<^verbatim>\<open>date\<close> is the reading of \<^verbatim>\<open>time.time()\<close>.
\<close>

record manifest =
  out_href :: json
  out_name :: string
  out_date :: real
  out_count :: nat
  out_items :: "item list"

text \<open>
  What a run does to the outside, in order: lines printed, prompts of \<^verbatim>\<open>input\<close>, requests
  sent, files written. \<open>Print_error msg\<close> is \<^verbatim>\<open>print(f"Error. {msg}")\<close> for the value
  \<open>msg\<close> of the body. The progress bars of \<^verbatim>\<open>tqdm\<close> are left out.
\<close>

datatype event =
    Print string
  | Print_error json
  | Prompt string
  | Request request
  | Write_file string manifest

fun request_of :: "event \<Rightarrow> request list" where
  "request_of (Request r) = [r]"
| "request_of _ = []"

definition requests_of :: "event list \<Rightarrow> request list" where
  "requests_of tr = concat (map request_of tr)"

fun write_of :: "event \<Rightarrow> (string \<times> manifest) list" where
  "write_of (Write_file path m) = [(path, m)]"
| "write_of _ = []"

definition writes_of :: "event list \<Rightarrow> (string \<times> manifest) list" where
  "writes_of tr = concat (map write_of tr)"

text \<open>
  \<^verbatim>\<open>requests.get\<close>, \<^verbatim>\<open>requests.put\<close>, \<^verbatim>\<open>requests.post\<close>: the \<open>k\<close>-th request of the run
  (counted from 0) is answered by \<open>net k\<close>, \<open>None\<close> when the library raises instead of
  returning a response.
\<close>

definition send :: "(nat \<Rightarrow> response option) \<Rightarrow> request \<Rightarrow> event list
    \<Rightarrow> (exn + response) \<times> event list" where
  "send net req tr =
     (case net (length (requests_of tr)) of
        None \<Rightarrow> (Inl RequestException, tr @ [Request req])
      | Some response \<Rightarrow> (Inr response, tr @ [Request req]))"

section \<open>\<^verbatim>\<open>response_processing\<close>\<close>

text \<open>\<^verbatim>\<open>exit()\<close> raises \<^verbatim>\<open>SystemExit\<close> with no exit code.\<close>

definition response_processing :: "response \<Rightarrow> event list \<Rightarrow> (exn + unit) \<times> event list" where
  "response_processing response tr =
     (let code = status_code response in
      if 400 \<le> code \<and> code < 500
      then (Inl (SystemExit None), tr @ [Print (''Client error '' @ str_int code)])
      else if 500 \<le> code \<and> code < 600
      then (Inl (SystemExit None), tr @ [Print (''Server error '' @ str_int code)])
      else (case response_json_of response of
              Inl e \<Rightarrow> (Inl e, tr)
            | Inr response_json \<Rightarrow>
               (case dict_get response_json ''error'' of
                  Inl e \<Rightarrow> (Inl e, tr)
                | Inr err \<Rightarrow>
                   if err \<noteq> JNull
                   then (case subscript response_json ''error'' of
                           Inl e \<Rightarrow> (Inl e, tr)
                         | Inr err' \<Rightarrow>
                            (case subscript err' ''error_msg'' of
                               Inl e \<Rightarrow> (Inl e, tr)
                             | Inr msg \<Rightarrow> (Inl (SystemExit None), tr @ [Print_error msg])))
                   else (Inr (), tr))))"

text \<open>
  The exit status of the process: 0 after a normal end and after \<^verbatim>\<open>SystemExit\<close> without a
  code, the code after \<^verbatim>\<open>SystemExit\<close> with one, 1 after any other uncaught exception.
\<close>

fun exit_status :: "exn + unit \<Rightarrow> int" where
  "exit_status (Inr _) = 0"
| "exit_status (Inl (SystemExit None)) = 0"
| "exit_status (Inl (SystemExit (Some code))) = code"
| "exit_status (Inl _) = 1"

section \<open>\<^verbatim>\<open>DiskClient\<close>\<close>

record disk_client =
  disk_headers :: "(string \<times> string) list"

definition DiskClient_BASE_URL :: string where
  "DiskClient_BASE_URL = ''https://cloud-api.yandex.net/v1/disk/resources''"

definition DiskClient :: "string \<Rightarrow> disk_client" where
  "DiskClient ya_token = \<lparr>disk_headers = [(''Authorization'', ya_token)]\<rparr>"

text \<open>The request of \<^verbatim>\<open>__create_dir\<close>.\<close>

definition create_request :: "disk_client \<Rightarrow> string \<Rightarrow> request" where
  "create_request self dirname =
     \<lparr>http_method = PUT, target = DiskClient_BASE_URL,
      params = [(''path'', dirname)], headers = disk_headers self\<rparr>"

definition create_dir :: "(nat \<Rightarrow> response option) \<Rightarrow> disk_client \<Rightarrow> string \<Rightarrow> event list
    \<Rightarrow> (exn + json) \<times> event list" where
  "create_dir net self dirname tr =
     (case send net (create_request self dirname) tr of
        (Inl e, tr1) \<Rightarrow> (Inl e, tr1)
      | (Inr response, tr1) \<Rightarrow>
         (case response_processing response tr1 of
            (Inl e, tr2) \<Rightarrow> (Inl e, tr2)
          | (Inr _, tr2) \<Rightarrow>
             (case response_json_of response of
                Inl e \<Rightarrow> (Inl e, tr2)
              | Inr response_json \<Rightarrow> (Inr response_json, tr2))))"

text \<open>The request of one pass of the loop of \<^verbatim>\<open>upload_files\<close>.\<close>

definition upload_request :: "disk_client \<Rightarrow> string \<Rightarrow> info \<Rightarrow> string \<Rightarrow> request" where
  "upload_request self dirname info fname =
     \<lparr>http_method = POST, target = DiskClient_BASE_URL @ ''/upload'',
      params = [(''path'', dirname @ ''/'' @ fname), (''url'', url info)],
      headers = disk_headers self\<rparr>"

text \<open>
  The loop \<^verbatim>\<open>for info in files_info\<close>; \<open>items\<close> is \<^verbatim>\<open>output_json['items']\<close> so far.
\<close>

fun upload_loop :: "(nat \<Rightarrow> response option) \<Rightarrow> (int \<Rightarrow> exn + struct_time) \<Rightarrow> disk_client
    \<Rightarrow> string \<Rightarrow> int option set \<Rightarrow> info list \<Rightarrow> item list \<Rightarrow> event list
    \<Rightarrow> (exn + item list) \<times> event list" where
  "upload_loop net localtime self dirname dups [] items tr = (Inr items, tr)"
| "upload_loop net localtime self dirname dups (info # rest) items tr =
     (case filename localtime dups info of
        Inl e \<Rightarrow> (Inl e, tr)
      | Inr fname \<Rightarrow>
         (case send net (upload_request self dirname info fname) tr of
            (Inl e, tr1) \<Rightarrow> (Inl e, tr1)
          | (Inr response, tr1) \<Rightarrow>
             (case response_processing response tr1 of
                (Inl e, tr2) \<Rightarrow> (Inl e, tr2)
              | (Inr _, tr2) \<Rightarrow>
                 (case response_json_of response of
                    Inl e \<Rightarrow> (Inl e, tr2)
                  | Inr response_json \<Rightarrow>
                     (case subscript response_json ''href'' of
                        Inl e \<Rightarrow> (Inl e, tr2)
                      | Inr h \<Rightarrow>
                         upload_loop net localtime self dirname dups rest
                           (items @ [\<lparr>item_name = fname, item_href = h,
                                      item_height = height info, item_width = width info\<rparr>])
                           tr2)))))"

text \<open>
  \<^verbatim>\<open>upload_files(self, files_info, dirname)\<close>; \<open>now\<close> is what \<^verbatim>\<open>time.time()\<close> returns. A call
  that leaves \<^verbatim>\<open>dirname\<close> out passes \<^verbatim>\<open>'reserve_copy'\<close>.
\<close>

definition upload_files :: "(nat \<Rightarrow> response option) \<Rightarrow> (int \<Rightarrow> exn + struct_time) \<Rightarrow> real
    \<Rightarrow> disk_client \<Rightarrow> info list \<Rightarrow> string \<Rightarrow> event list \<Rightarrow> (exn + manifest) \<times> event list" where
  "upload_files net localtime now self files_info dirname tr =
     (let dups = duplicate_names files_info in
      case create_dir net self dirname tr of
        (Inl e, tr1) \<Rightarrow> (Inl e, tr1)
      | (Inr create_dir_json, tr1) \<Rightarrow>
         (case subscript create_dir_json ''href'' of
            Inl e \<Rightarrow> (Inl e, tr1)
          | Inr h \<Rightarrow>
             (case upload_loop net localtime self dirname dups files_info [] tr1 of
                (Inl e, tr2) \<Rightarrow> (Inl e, tr2)
              | (Inr items, tr2) \<Rightarrow>
                 (Inr \<lparr>out_href = h, out_name = dirname, out_date = now,
                       out_count = length files_info, out_items = items\<rparr>, tr2))))"

section \<open>Calls with positional arguments\<close>

text \<open>
  Python binds the positional arguments of a call to the parameters from the left (the
  instance \<^verbatim>\<open>self\<close> apart); a parameter left without an argument takes its default, and the
  call raises \<^verbatim>\<open>TypeError\<close> when it has none or when arguments are left over. A parameter
  is given here with its name and its default.
\<close>

fun bind_args :: "(string \<times> 'v option) list \<Rightarrow> 'v list \<Rightarrow> exn + (string \<times> 'v) list" where
  "bind_args [] [] = Inr []"
| "bind_args [] (a # args) = Inl TypeError"
| "bind_args ((p, None) # ps) [] = Inl TypeError"
| "bind_args ((p, Some v) # ps) [] =
     (case bind_args ps [] of Inl e \<Rightarrow> Inl e | Inr bs \<Rightarrow> Inr ((p, v) # bs))"
| "bind_args ((p, d) # ps) (a # args) =
     (case bind_args ps args of Inl e \<Rightarrow> Inl e | Inr bs \<Rightarrow> Inr ((p, a) # bs))"

section \<open>\<^verbatim>\<open>VKClient\<close>\<close>

record vk_client =
  vk_params :: "(string \<times> string) list"

definition VKClient_BASE_URL :: string where
  "VKClient_BASE_URL = ''https://api.vk.com/method''"

text \<open>\<^verbatim>\<open>__init__(self, vk_token, user_id, version='5.199')\<close>\<close>

definition VKClient :: "string \<Rightarrow> string \<Rightarrow> string \<Rightarrow> vk_client" where
  "VKClient vk_token user_id version =
     \<lparr>vk_params = [(''access_token'', vk_token), (''owner_id'', user_id), (''extended'', ''1''),
                   (''v'', version)]\<rparr>"

definition VKClient_parameters :: "(string \<times> string option) list" where
  "VKClient_parameters = [(''vk_token'', None), (''user_id'', None), (''version'', Some ''5.199'')]"

definition call_VKClient :: "string list \<Rightarrow> exn + vk_client" where
  "call_VKClient args =
     (case bind_args VKClient_parameters args of
        Inl e \<Rightarrow> Inl e
      | Inr [(_, vk_token), (_, user_id), (_, version)] \<Rightarrow> Inr (VKClient vk_token user_id version)
      | Inr _ \<Rightarrow> Inl TypeError)"

definition subscript2 :: "json \<Rightarrow> string \<Rightarrow> string \<Rightarrow> exn + json" where
  "subscript2 obj key1 key2 =
     (case subscript obj key1 of Inl e \<Rightarrow> Inl e | Inr v \<Rightarrow> subscript v key2)"

text \<open>
  The dictionary built from one item of the album, its values read in the order of the
  source. The record \<open>info\<close> holds integers and a string, as the service sends them; a
  value of another JSON type has no place in it, and the model stops there with
  \<^verbatim>\<open>TypeError\<close>.
\<close>

definition photo_info :: "json \<Rightarrow> exn + info" where
  "photo_info item =
     (case subscript2 item ''likes'' ''count'' of Inl e \<Rightarrow> Inl e | Inr l \<Rightarrow>
      case subscript2 item ''orig_photo'' ''url'' of Inl e \<Rightarrow> Inl e | Inr u \<Rightarrow>
      case subscript item ''date'' of Inl e \<Rightarrow> Inl e | Inr d \<Rightarrow>
      case subscript2 item ''orig_photo'' ''height'' of Inl e \<Rightarrow> Inl e | Inr h \<Rightarrow>
      case subscript2 item ''orig_photo'' ''width'' of Inl e \<Rightarrow> Inl e | Inr w \<Rightarrow>
      case (l, u, d, h, w) of
        (JNum l', JStr u', JNum d', JNum h', JNum w') \<Rightarrow>
          Inr \<lparr>likes = l', url = u', date = d', height = h', width = w'\<rparr>
      | _ \<Rightarrow> Inl TypeError)"

text \<open>
  \<^verbatim>\<open>for item in items\<close>: a list gives its elements, a dictionary its keys, a string its
  characters; anything else is not iterable.
\<close>

fun iterate :: "json \<Rightarrow> exn + json list" where
  "iterate (JArr xs) = Inr xs"
| "iterate (JObj kvs) = Inr (map (\<lambda>kv. JStr (fst kv)) kvs)"
| "iterate (JStr s) = Inr (map (\<lambda>c. JStr [c]) s)"
| "iterate _ = Inl TypeError"

fun photo_loop :: "json list \<Rightarrow> info list \<Rightarrow> exn + info list" where
  "photo_loop [] output_info = Inr output_info"
| "photo_loop (item # rest) output_info =
     (case photo_info item of
        Inl e \<Rightarrow> Inl e
      | Inr info \<Rightarrow> photo_loop rest (output_info @ [info]))"

definition get_photos_info :: "(nat \<Rightarrow> response option) \<Rightarrow> vk_client \<Rightarrow> string \<Rightarrow> event list
    \<Rightarrow> (exn + info list) \<times> event list" where
  "get_photos_info net self album_id tr =
     (case send net \<lparr>http_method = GET, target = VKClient_BASE_URL @ ''/photos.get'',
                     params = vk_params self @ [(''album_id'', album_id)], headers = []\<rparr> tr of
        (Inl e, tr1) \<Rightarrow> (Inl e, tr1)
      | (Inr response, tr1) \<Rightarrow>
         (case response_processing response tr1 of
            (Inl e, tr2) \<Rightarrow> (Inl e, tr2)
          | (Inr _, tr2) \<Rightarrow>
             (case response_json_of response of
                Inl e \<Rightarrow> (Inl e, tr2)
              | Inr response_json \<Rightarrow>
                 (case subscript2 response_json ''response'' ''items'' of
                    Inl e \<Rightarrow> (Inl e, tr2)
                  | Inr items \<Rightarrow>
                     (case iterate items of
                        Inl e \<Rightarrow> (Inl e, tr2)
                      | Inr its \<Rightarrow>
                         (case photo_loop its [] of
                            Inl e \<Rightarrow> (Inl e, tr2)
                          | Inr output_info \<Rightarrow> (Inr output_info, tr2)))))))"

text \<open>A call \<^verbatim>\<open>vk_client.get_photos_info(...)\<close> with the positional arguments \<open>args\<close>.\<close>

definition call_get_photos_info :: "(nat \<Rightarrow> response option) \<Rightarrow> vk_client \<Rightarrow> string list
    \<Rightarrow> event list \<Rightarrow> (exn + info list) \<times> event list" where
  "call_get_photos_info net self args tr =
     (case bind_args [(''album_id'', None)] args of
        Inl e \<Rightarrow> (Inl e, tr)
      | Inr [(_, album_id)] \<Rightarrow> get_photos_info net self album_id tr
      | Inr _ \<Rightarrow> (Inl TypeError, tr))"

section \<open>The entry point\<close>

text \<open>
  What the run finds outside: the outcome of reading \<^verbatim>\<open>config['VK']['vk_token']\<close> from
  \<^verbatim>\<open>settings.ini\<close> (the token, or the exception \<^verbatim>\<open>configparser\<close> raises), the lines typed
  on standard input, the answers of the two services, the local time zone, the clock, and
  whether \<^verbatim>\<open>output.json\<close> can be opened for writing.
\<close>

record env =
  env_vk_token :: "exn + string"
  env_stdin :: "string list"
  env_net :: "nat \<Rightarrow> response option"
  env_localtime :: "int \<Rightarrow> exn + struct_time"
  env_now :: real
  env_writable :: bool

text \<open>\<^verbatim>\<open>input(prompt)\<close>: the next line of standard input, \<^verbatim>\<open>EOFError\<close> at its end.\<close>

definition input :: "string \<Rightarrow> string list \<Rightarrow> event list
    \<Rightarrow> (exn + string) \<times> string list \<times> event list" where
  "input prompt stdin tr =
     (case stdin of
        [] \<Rightarrow> (Inl EOFError, [], tr @ [Prompt prompt])
      | line # rest \<Rightarrow> (Inr line, rest, tr @ [Prompt prompt]))"

text \<open>
  The entry point from \<^verbatim>\<open>print()\<close> after the album is read to \<^verbatim>\<open>print('Done!')\<close>.
\<close>

definition main_upload :: "env \<Rightarrow> info list \<Rightarrow> string list \<Rightarrow> event list
    \<Rightarrow> (exn + unit) \<times> event list" where
  "main_upload env photos_info stdin tr =
     (case input ''Enter disk access token: '' stdin (tr @ [Print []]) of
        (Inl e, _, tr1) \<Rightarrow> (Inl e, tr1)
      | (Inr disk_token, stdin1, tr1) \<Rightarrow>
         (case input ''Enter directory name (default: reserve_copy): '' stdin1 tr1 of
            (Inl e, _, tr2) \<Rightarrow> (Inl e, tr2)
          | (Inr dirname, stdin2, tr2) \<Rightarrow>
             (let yadisk_client = DiskClient disk_token in
              case upload_files (env_net env) (env_localtime env) (env_now env)
                     yadisk_client photos_info dirname tr2 of
                (Inl e, tr3) \<Rightarrow> (Inl e, tr3)
              | (Inr response_json, tr3) \<Rightarrow>
                 if env_writable env
                 then (Inr (), tr3 @ [Write_file ''output.json'' response_json, Print ''Done!''])
                 else (Inl OSError, tr3))))"

text \<open>The entry point: the block under \<^verbatim>\<open>if __name__ == '__main__'\<close>.\<close>

definition main :: "env \<Rightarrow> (exn + unit) \<times> event list" where
  "main env =
     (case env_vk_token env of
        Inl e \<Rightarrow> (Inl e, [])
      | Inr vk_token \<Rightarrow>
         (case input ''Enter vk user id: '' (env_stdin env) [] of
            (Inl e, _, tr1) \<Rightarrow> (Inl e, tr1)
          | (Inr user_id, stdin1, tr1) \<Rightarrow>
             (case input (''Enter album id ('' @ [CHR 0x27] @ ''profile'' @ [CHR 0x27] @ '' by default): '')
                     stdin1 tr1 of
                (Inl e, _, tr2) \<Rightarrow> (Inl e, tr2)
              | (Inr album_id0, stdin2, tr2) \<Rightarrow>
                 (let album_id = (if album_id0 = [] then ''profile'' else album_id0) in
                  case call_VKClient [vk_token, user_id, album_id] of
                    Inl e \<Rightarrow> (Inl e, tr2)
                  | Inr vk_client \<Rightarrow>
                     (case call_get_photos_info (env_net env) vk_client [] tr2 of
                        (Inl e, tr3) \<Rightarrow> (Inl e, tr3)
                      | (Inr photos_info, tr3) \<Rightarrow> main_upload env photos_info stdin2 tr3)))))"

section \<open>The responses that end a run\<close>

text \<open>
  The message of an application-level error: the body is a dictionary whose \<^verbatim>\<open>error\<close> is
  a dictionary with an \<^verbatim>\<open>error_msg\<close>.
\<close>

definition api_error_msg :: "response \<Rightarrow> json option" where
  "api_error_msg r =
     (case json_body r of
        Some (JObj kvs) \<Rightarrow>
          (case map_of kvs ''error'' of Some (JObj err) \<Rightarrow> map_of err ''error_msg'' | _ \<Rightarrow> None)
      | _ \<Rightarrow> None)"

text \<open>
  The three terminal errors: a status from 400 to 499, a status from 500 to 599, and a
  status from 200 to 299 whose body carries an error object.
\<close>

definition terminal_error :: "response \<Rightarrow> bool" where
  "terminal_error r \<longleftrightarrow>
     (400 \<le> status_code r \<and> status_code r < 600)
     \<or> (200 \<le> status_code r \<and> status_code r < 300 \<and> api_error_msg r \<noteq> None)"

text \<open>The line printed for each of them.\<close>

definition error_message :: "response \<Rightarrow> event" where
  "error_message r =
     (if 400 \<le> status_code r \<and> status_code r < 500
      then Print (''Client error '' @ str_int (status_code r))
      else if 500 \<le> status_code r \<and> status_code r < 600
      then Print (''Server error '' @ str_int (status_code r))
      else Print_error (case api_error_msg r of Some msg \<Rightarrow> msg | None \<Rightarrow> JNull))"

section \<open>Example responses\<close>

text \<open>The body of an application-level error of the photo service.\<close>

definition example_error_body :: json where
  "example_error_body =
     JObj [(''error'', JObj [(''error_code'', JNum 5),
                             (''error_msg'', JStr ''User authorization failed'')])]"

text \<open>The body of a successful answer of the storage service.\<close>

definition example_href_body :: "string \<Rightarrow> json" where
  "example_href_body h = JObj [(''href'', JStr h), (''method'', JStr ''GET''), (''templated'', JBool False)]"

text \<open>
  A storage service that accepts everything: 201 for the folder, 202 for each upload, the
  body with the link of the call.
\<close>

definition example_net :: "nat \<Rightarrow> response option" where
  "example_net k =
     Some \<lparr>status_code = (if k = 0 then 201 else 202),
           json_body = Some (example_href_body (''https://cloud-api.yandex.net/v1/disk/'' @ str_nat k))\<rparr>"

text \<open>Two photographs with 5 likes each, uploaded at 00:00 UTC of 2021-05-01 and 2021-05-02.\<close>

definition example_midnight :: "info list" where
  "example_midnight =
     [\<lparr>likes = 5, url = ''https://sun9-1.userapi.com/f.jpg'', date = 1619827200,
       height = 1080, width = 1920\<rparr>,
      \<lparr>likes = 5, url = ''https://sun9-1.userapi.com/g.jpg'', date = 1619913600,
       height = 1080, width = 1920\<rparr>]"

text \<open>The run of \<^verbatim>\<open>upload_files\<close> on the three photographs against that service.\<close>

definition example_requests :: "request list" where
  "example_requests =
     [\<lparr>http_method = PUT, target = ''https://cloud-api.yandex.net/v1/disk/resources'',
       params = [(''path'', ''reserve_copy'')], headers = [(''Authorization'', ''OAuth t'')]\<rparr>,
      \<lparr>http_method = POST, target = ''https://cloud-api.yandex.net/v1/disk/resources/upload'',
       params = [(''path'', ''reserve_copy/5-01_05_2021''),
                 (''url'', ''https://sun9-1.userapi.com/a.jpg'')],
       headers = [(''Authorization'', ''OAuth t'')]\<rparr>,
      \<lparr>http_method = POST, target = ''https://cloud-api.yandex.net/v1/disk/resources/upload'',
       params = [(''path'', ''reserve_copy/5-02_05_2021''),
                 (''url'', ''https://sun9-1.userapi.com/b.jpg'')],
       headers = [(''Authorization'', ''OAuth t'')]\<rparr>,
      \<lparr>http_method = POST, target = ''https://cloud-api.yandex.net/v1/disk/resources/upload'',
       params = [(''path'', ''reserve_copy/7''),
                 (''url'', ''https://sun9-1.userapi.com/c.jpg'')],
       headers = [(''Authorization'', ''OAuth t'')]\<rparr>]"

definition example_manifest :: manifest where
  "example_manifest =
     \<lparr>out_href = JStr ''https://cloud-api.yandex.net/v1/disk/0'',
      out_name = ''reserve_copy'', out_date = 1620000000, out_count = 3,
      out_items =
        [\<lparr>item_name = ''5-01_05_2021'', item_href = JStr ''https://cloud-api.yandex.net/v1/disk/1'',
          item_height = 1080, item_width = 1920\<rparr>,
         \<lparr>item_name = ''5-02_05_2021'', item_href = JStr ''https://cloud-api.yandex.net/v1/disk/2'',
          item_height = 720, item_width = 1280\<rparr>,
         \<lparr>item_name = ''7'', item_href = JStr ''https://cloud-api.yandex.net/v1/disk/3'',
          item_height = 600, item_width = 800\<rparr>]\<rparr>"

text \<open>
  A storage service that creates the folder and refuses the first upload with 404, in the
  error format of that service.
\<close>

definition example_net_failing :: "nat \<Rightarrow> response option" where
  "example_net_failing k =
     (if k = 1
      then Some \<lparr>status_code = 404,
                 json_body = Some (JObj [(''message'', JStr ''Resource not found.''),
                                         (''error'', JStr ''DiskNotFoundError'')])\<rparr>
      else example_net k)"

text \<open>A photo service that answers 200 with an application-level error.\<close>

definition example_net_api_error :: "nat \<Rightarrow> response option" where
  "example_net_api_error k = Some \<lparr>status_code = 200, json_body = Some example_error_body\<rparr>"

definition example_env :: env where
  "example_env =
     \<lparr>env_vk_token = Inr ''vk1.a.token'',
      env_stdin = [''1'', [], ''OAuth t'', ''reserve_copy''],
      env_net = example_net_failing,
      env_localtime = localtime_fixed 0,
      env_now = 1620000000,
      env_writable = True\<rparr>"

section \<open>Facts about decimal strings and the date format\<close>

declare str_nat.simps [simp del]

lemma of_char_digit_char: "d < 10 \<Longrightarrow> (of_char (digit_char d) :: nat) = 48 + d"
proof -
  assume "d < 10"
  then have "48 + d < (256::nat)" by linarith
  then have "(48 + d) mod 256 = 48 + d" by (rule mod_less)
  then show ?thesis unfolding digit_char_def of_char_of .
qed

lemma digit_char_inj: "a < 10 \<Longrightarrow> b < 10 \<Longrightarrow> digit_char a = digit_char b \<Longrightarrow> a = b"
proof -
  assume a: "a < 10" and b: "b < 10" and eq: "digit_char a = digit_char b"
  have "48 + a = (of_char (digit_char a) :: nat)"
    using of_char_digit_char [OF a] by (rule sym)
  also have "\<dots> = of_char (digit_char b)" by (simp only: eq)
  also have "\<dots> = 48 + b" by (rule of_char_digit_char [OF b])
  finally show "a = b" by (simp only: add_left_cancel)
qed

lemma digit_char_neq:
  assumes "d < 10" and "(of_char c :: nat) < 48"
  shows "digit_char d \<noteq> c"
proof
  assume "digit_char d = c"
  then have "(of_char c :: nat) = 48 + d"
    using of_char_digit_char [OF assms(1)] by (simp only:)
  with assms(2) show False by linarith
qed

lemma digit_char_not_minus: "d < 10 \<Longrightarrow> digit_char d \<noteq> CHR ''-''"
  by (rule digit_char_neq) simp_all

lemma digit_char_not_underscore: "d < 10 \<Longrightarrow> digit_char d \<noteq> CHR ''_''"
proof
  assume d: "d < 10" and "digit_char d = CHR ''_''"
  then have "(of_char (CHR ''_'') :: nat) = 48 + d"
    using of_char_digit_char [OF d] by (simp only:)
  moreover have "(of_char (CHR ''_'') :: nat) = 95" by simp
  ultimately show False using d by linarith
qed

lemma digit_char_zero: "d < 10 \<Longrightarrow> digit_char d = CHR ''0'' \<Longrightarrow> d = 0"
proof -
  assume d: "d < 10" and "digit_char d = CHR ''0''"
  then have "(of_char (CHR ''0'') :: nat) = 48 + d"
    using of_char_digit_char [OF d] by (simp only:)
  moreover have "(of_char (CHR ''0'') :: nat) = 48" by simp
  ultimately show "d = 0" by linarith
qed

lemma str_nat_digits: "c \<in> set (str_nat n) \<Longrightarrow> \<exists>d<10. c = digit_char d"
proof (induction n rule: str_nat.induct)
  case (1 n)
  show ?case
  proof (cases "n < 10")
    case True
    with "1.prems" show ?thesis by (auto simp: str_nat.simps [of n])
  next
    case False
    with "1.prems" have "c \<in> set (str_nat (n div 10)) \<or> c = digit_char (n mod 10)"
      by (auto simp: str_nat.simps [of n])
    then show ?thesis
    proof
      assume "c \<in> set (str_nat (n div 10))"
      with False "1.IH" show ?thesis by blast
    next
      assume "c = digit_char (n mod 10)"
      moreover have "n mod 10 < 10" by simp
      ultimately show ?thesis by blast
    qed
  qed
qed

lemma str_nat_not_Nil: "str_nat n \<noteq> []"
  by (simp add: str_nat.simps [of n])

lemma str_nat_inj: "str_nat m = str_nat n \<Longrightarrow> m = n"
proof (induction m arbitrary: n rule: str_nat.induct)
  case (1 m)
  show ?case
  proof (cases "m < 10")
    case m: True
    show ?thesis
    proof (cases "n < 10")
      case True
      with m "1.prems" show ?thesis
        by (simp add: str_nat.simps [of m] str_nat.simps [of n] digit_char_inj)
    next
      case False
      with m "1.prems" show ?thesis
        using str_nat_not_Nil [of "n div 10"]
        by (simp add: str_nat.simps [of m] str_nat.simps [of n])
    qed
  next
    case m: False
    show ?thesis
    proof (cases "n < 10")
      case True
      with m "1.prems" show ?thesis
        using str_nat_not_Nil [of "m div 10"]
        by (simp add: str_nat.simps [of m] str_nat.simps [of n])
    next
      case False
      with m "1.prems" have a: "str_nat (m div 10) = str_nat (n div 10)"
        and b: "digit_char (m mod 10) = digit_char (n mod 10)"
        by (simp_all add: str_nat.simps [of m] str_nat.simps [of n])
      from a m "1.IH" have "m div 10 = n div 10" by blast
      moreover from b have "m mod 10 = n mod 10"
        by (intro digit_char_inj) simp_all
      ultimately show ?thesis
        by (metis div_mult_mod_eq)
    qed
  qed
qed

lemma str_nat_hd: "0 < n \<Longrightarrow> hd (str_nat n) \<noteq> CHR ''0''"
proof (induction n rule: str_nat.induct)
  case (1 n)
  show ?case
  proof (cases "n < 10")
    case True
    with "1.prems" show ?thesis
      using digit_char_zero [of n] by (auto simp: str_nat.simps [of n])
  next
    case False
    then have "0 < n div 10" by simp
    with False "1.IH" have "hd (str_nat (n div 10)) \<noteq> CHR ''0''" by blast
    with False show ?thesis
      using str_nat_not_Nil [of "n div 10"] by (simp add: str_nat.simps [of n])
  qed
qed

lemma minus_notin_str_nat: "CHR ''-'' \<notin> set (str_nat n)"
  using str_nat_digits [of "CHR ''-''" n] digit_char_not_minus by metis

lemma underscore_notin_str_nat: "CHR ''_'' \<notin> set (str_nat n)"
  using str_nat_digits [of "CHR ''_''" n] digit_char_not_underscore by metis

lemma str_int_inj: "str_int i = str_int j \<Longrightarrow> i = j"
proof -
  assume eq: "str_int i = str_int j"
  have hd: "hd (str_nat k) \<noteq> CHR ''-''" for k
    using minus_notin_str_nat [of k] str_nat_not_Nil [of k] by (cases "str_nat k") auto
  show ?thesis
  proof (cases "i < 0")
    case i: True
    show ?thesis
    proof (cases "j < 0")
      case True
      with i eq have "nat (- i) = nat (- j)" by (simp add: str_int_def str_nat_inj)
      with i True show ?thesis by simp
    next
      case False
      with i eq have "CHR ''-'' # str_nat (nat (- i)) = str_nat (nat j)"
        by (simp add: str_int_def)
      with hd [of "nat j"] show ?thesis by (metis list.sel(1))
    qed
  next
    case i: False
    show ?thesis
    proof (cases "j < 0")
      case True
      with i eq have "str_nat (nat i) = CHR ''-'' # str_nat (nat (- j))"
        by (simp add: str_int_def)
      with hd [of "nat i"] show ?thesis by (metis list.sel(1))
    next
      case False
      with i eq have "nat i = nat j" by (simp add: str_int_def str_nat_inj)
      with i False show ?thesis by simp
    qed
  qed
qed

lemma split_at_separator:
  "c \<notin> set a \<Longrightarrow> c \<notin> set a' \<Longrightarrow> a @ c # b = a' @ c # b' \<Longrightarrow> a = a' \<and> b = b'"
proof (induction a arbitrary: a')
  case Nil
  then show ?case by (cases a') auto
next
  case (Cons x a)
  then show ?case by (cases a') auto
qed

lemma pad2_inj: "pad2 a = pad2 b \<Longrightarrow> a = b"
proof -
  assume eq: "pad2 a = pad2 b"
  have one: "str_nat k = [digit_char k]" if "k < 10" for k
    using that by (simp add: str_nat.simps [of k])
  show ?thesis
  proof (cases "a < 10")
    case a: True
    show ?thesis
    proof (cases "b < 10")
      case True
      with a eq show ?thesis by (simp add: pad2_def str_nat_inj)
    next
      case False
      then have "hd (str_nat b) \<noteq> CHR ''0''" by (intro str_nat_hd) simp
      moreover from a False eq have "CHR ''0'' # str_nat a = str_nat b" by (simp add: pad2_def)
      ultimately show ?thesis by (metis list.sel(1))
    qed
  next
    case a: False
    show ?thesis
    proof (cases "b < 10")
      case True
      from a have "hd (str_nat a) \<noteq> CHR ''0''" by (intro str_nat_hd) simp
      moreover from a True eq have "str_nat a = CHR ''0'' # str_nat b" by (simp add: pad2_def)
      ultimately show ?thesis by (metis list.sel(1))
    next
      case False
      with a eq show ?thesis by (simp add: pad2_def str_nat_inj)
    qed
  qed
qed

lemma underscore_notin_pad2: "CHR ''_'' \<notin> set (pad2 n)"
  using underscore_notin_str_nat [of n] by (simp add: pad2_def)

lemma strftime_d_m_Y_inj:
  assumes "strftime_d_m_Y tm = strftime_d_m_Y tm'"
  shows "calendar_date tm = calendar_date tm'"
proof -
  from assms have eq:
    "pad2 (tm_mday tm) @ CHR ''_'' # (pad2 (tm_mon tm) @ CHR ''_'' # str_int (tm_year tm))
     = pad2 (tm_mday tm') @ CHR ''_'' # (pad2 (tm_mon tm') @ CHR ''_'' # str_int (tm_year tm'))"
    by (simp add: strftime_d_m_Y_def)
  from split_at_separator [OF underscore_notin_pad2 underscore_notin_pad2 eq]
  have d: "pad2 (tm_mday tm) = pad2 (tm_mday tm')"
    and rest: "pad2 (tm_mon tm) @ CHR ''_'' # str_int (tm_year tm)
               = pad2 (tm_mon tm') @ CHR ''_'' # str_int (tm_year tm')"
    by simp_all
  from split_at_separator [OF underscore_notin_pad2 underscore_notin_pad2 rest]
  have m: "pad2 (tm_mon tm) = pad2 (tm_mon tm')"
    and y: "str_int (tm_year tm) = str_int (tm_year tm')"
    by simp_all
  from d m y show ?thesis
    by (simp add: calendar_date_def pad2_inj str_int_inj)
qed

section \<open>Facts about the naming\<close>

lemma count_list_nth_split:
  assumes "i < length xs"
  shows "count_list xs (xs ! i)
         = count_list (take i xs) (xs ! i) + 1 + count_list (drop (Suc i) xs) (xs ! i)"
proof -
  from assms have "xs = take i xs @ xs ! i # drop (Suc i) xs"
    by (rule id_take_nth_drop)
  then have "count_list xs (xs ! i) = count_list (take i xs @ xs ! i # drop (Suc i) xs) (xs ! i)"
    by (simp only:)
  then show ?thesis by simp
qed

lemma count_list_gt1_if:
  assumes "i < length xs" and "j < length xs" and "i \<noteq> j" and "xs ! i = xs ! j"
  shows "1 < count_list xs (xs ! i)"
proof -
  have "xs ! i \<in> set (take i xs) \<or> xs ! i \<in> set (drop (Suc i) xs)"
  proof (cases "j < i")
    case True
    with assms have "take i xs ! j = xs ! i" by simp
    moreover from True assms have "j < length (take i xs)" by simp
    ultimately show ?thesis by (metis nth_mem)
  next
    case False
    with assms have j: "Suc i \<le> j" by simp
    with assms have "drop (Suc i) xs ! (j - Suc i) = xs ! i" by simp
    moreover from j assms have "j - Suc i < length (drop (Suc i) xs)" by simp
    ultimately show ?thesis by (metis nth_mem)
  qed
  then have "0 < count_list (take i xs) (xs ! i) \<or> 0 < count_list (drop (Suc i) xs) (xs ! i)"
    using count_list_0_iff [of "take i xs" "xs ! i"] count_list_0_iff [of "drop (Suc i) xs" "xs ! i"]
    by auto
  with count_list_nth_split [OF assms(1)] show ?thesis by linarith
qed

lemma count_list_gt1_only_if:
  assumes "i < length xs" and "1 < count_list xs (xs ! i)"
  shows "\<exists>j<length xs. j \<noteq> i \<and> xs ! j = xs ! i"
proof -
  from assms count_list_nth_split [OF assms(1)]
  have "0 < count_list (take i xs) (xs ! i) \<or> 0 < count_list (drop (Suc i) xs) (xs ! i)"
    by linarith
  then have "xs ! i \<in> set (take i xs) \<or> xs ! i \<in> set (drop (Suc i) xs)"
    using count_list_0_iff [of "take i xs" "xs ! i"] count_list_0_iff [of "drop (Suc i) xs" "xs ! i"]
    by auto
  then show ?thesis
  proof
    assume "xs ! i \<in> set (take i xs)"
    then obtain k where k: "k < length (take i xs)" "take i xs ! k = xs ! i"
      by (auto simp: in_set_conv_nth)
    with assms(1) have "k < length xs" "k \<noteq> i" "xs ! k = xs ! i" by simp_all
    then show ?thesis by blast
  next
    assume "xs ! i \<in> set (drop (Suc i) xs)"
    then obtain k where k: "k < length (drop (Suc i) xs)" "drop (Suc i) xs ! k = xs ! i"
      by (auto simp: in_set_conv_nth)
    with assms(1) have "Suc i + k < length xs" "Suc i + k \<noteq> i" "xs ! (Suc i + k) = xs ! i"
      by simp_all
    then show ?thesis by blast
  qed
qed

lemma mem_duplicate_names:
  "Some p \<in> duplicate_names files_info \<longleftrightarrow> 1 < count_list (names files_info) p"
proof
  assume "Some p \<in> duplicate_names files_info"
  then show "1 < count_list (names files_info) p"
    by (auto simp: duplicate_names_def split: if_splits)
next
  assume c: "1 < count_list (names files_info) p"
  then have "p \<in> set (names files_info)"
    using count_list_0_iff [of "names files_info" p] by auto
  with c show "Some p \<in> duplicate_names files_info"
    by (force simp: duplicate_names_def)
qed

lemma assigned_names_nth:
  "i < length files_info \<Longrightarrow>
   assigned_names localtime files_info ! i
   = filename localtime (duplicate_names files_info) (files_info ! i)"
  by (simp add: assigned_names_def)

lemma names_nth: "i < length files_info \<Longrightarrow> names files_info ! i = likes (files_info ! i)"
  by (simp add: names_def)

lemma filename_unique:
  "\<not> 1 < count_list (names files_info) (likes r) \<Longrightarrow>
   filename localtime (duplicate_names files_info) r = Inr (str_int (likes r))"
  by (simp add: filename_def mem_duplicate_names)

lemma filename_duplicate:
  "1 < count_list (names files_info) (likes r) \<Longrightarrow> localtime (date r) = Inr tm \<Longrightarrow>
   filename localtime (duplicate_names files_info) r
   = Inr (str_int (likes r) @ ''-'' @ strftime_d_m_Y tm)"
  by (simp add: filename_def mem_duplicate_names)

lemma filename_duplicate_error:
  "1 < count_list (names files_info) (likes r) \<Longrightarrow> localtime (date r) = Inl e \<Longrightarrow>
   filename localtime (duplicate_names files_info) r = Inl e"
  by (simp add: filename_def mem_duplicate_names)

lemma strftime_d_m_Y_cong:
  "calendar_date tm = calendar_date tm' \<Longrightarrow> strftime_d_m_Y tm = strftime_d_m_Y tm'"
  by (simp add: calendar_date_def strftime_d_m_Y_def)

text \<open>
  C2. A record whose number of likes occurs once in \<^verbatim>\<open>files_info\<close> is named by the decimal
  string of that number; one whose number of likes occurs more than once is named by that
  string, a \<^verbatim>\<open>-\<close>, and the local date of its timestamp as zero-padded day, month and year
  joined by \<^verbatim>\<open>_\<close>. Likes 5, 5, 7 with the first two records dated 2021-05-01 and
  2021-05-02 give the names 5-01_05_2021, 5-02_05_2021 and 7.
\<close>

theorem assigned_name_by_multiplicity:
  "(i < length files_info \<and> count_list (names files_info) (likes (files_info ! i)) = 1 \<longrightarrow>
      assigned_names localtime files_info ! i = Inr (str_int (likes (files_info ! i))))
   \<and> (i < length files_info \<and> 1 < count_list (names files_info) (likes (files_info ! i))
        \<and> localtime (date (files_info ! i)) = Inr tm \<longrightarrow>
      assigned_names localtime files_info ! i
      = Inr (str_int (likes (files_info ! i)) @ ''-'' @ pad2 (tm_mday tm) @ ''_'' @ pad2 (tm_mon tm)
             @ ''_'' @ str_int (tm_year tm)))
   \<and> (likes r1 = 5 \<and> likes r2 = 5 \<and> likes r3 = 7
        \<and> localtime (date r1) = Inr tm1 \<and> calendar_date tm1 = (2021, 5, 1)
        \<and> localtime (date r2) = Inr tm2 \<and> calendar_date tm2 = (2021, 5, 2) \<longrightarrow>
      assigned_names localtime [r1, r2, r3]
      = [Inr ''5-01_05_2021'', Inr ''5-02_05_2021'', Inr ''7''])"
proof (intro conjI impI)
  assume "i < length files_info \<and> count_list (names files_info) (likes (files_info ! i)) = 1"
  then show "assigned_names localtime files_info ! i = Inr (str_int (likes (files_info ! i)))"
    by (simp add: assigned_names_nth filename_unique)
next
  assume "i < length files_info \<and> 1 < count_list (names files_info) (likes (files_info ! i))
          \<and> localtime (date (files_info ! i)) = Inr tm"
  then show "assigned_names localtime files_info ! i
      = Inr (str_int (likes (files_info ! i)) @ ''-'' @ pad2 (tm_mday tm) @ ''_'' @ pad2 (tm_mon tm)
             @ ''_'' @ str_int (tm_year tm))"
    by (simp add: assigned_names_nth filename_duplicate strftime_d_m_Y_def)
next
  assume a: "likes r1 = 5 \<and> likes r2 = 5 \<and> likes r3 = 7
        \<and> localtime (date r1) = Inr tm1 \<and> calendar_date tm1 = (2021, 5, 1)
        \<and> localtime (date r2) = Inr tm2 \<and> calendar_date tm2 = (2021, 5, 2)"
  have five: "str_int 5 = ''5''" and seven: "str_int 7 = ''7''" and y: "str_int 2021 = ''2021''"
    by code_simp+
  have p1: "pad2 (Suc 0) = ''01''" and p2: "pad2 2 = ''02''" and p5: "pad2 5 = ''05''"
    by code_simp+
  from a have d1: "strftime_d_m_Y tm1 = ''01_05_2021''" and d2: "strftime_d_m_Y tm2 = ''02_05_2021''"
    by (simp_all add: calendar_date_def strftime_d_m_Y_def y p1 p2 p5)
  from a have n: "names [r1, r2, r3] = [5, 5, 7]" by (simp add: names_def)
  have c5: "1 < count_list (names [r1, r2, r3]) (likes r1)"
    and c5': "1 < count_list (names [r1, r2, r3]) (likes r2)"
    and c7: "\<not> 1 < count_list (names [r1, r2, r3]) (likes r3)"
    using a by (simp_all add: n)
  from a have "filename localtime (duplicate_names [r1, r2, r3]) r1 = Inr ''5-01_05_2021''"
    using filename_duplicate [OF c5, of localtime tm1] by (simp add: five d1)
  moreover from a have "filename localtime (duplicate_names [r1, r2, r3]) r2 = Inr ''5-02_05_2021''"
    using filename_duplicate [OF c5', of localtime tm2] by (simp add: five d2)
  moreover from a have "filename localtime (duplicate_names [r1, r2, r3]) r3 = Inr ''7''"
    using filename_unique [OF c7, of localtime] by (simp add: seven)
  ultimately show "assigned_names localtime [r1, r2, r3]
      = [Inr ''5-01_05_2021'', Inr ''5-02_05_2021'', Inr ''7'']"
    by (simp add: assigned_names_def)
qed

theorem assigned_name_by_multiplicity_witness:
  "(0 < length example_files_info
    \<and> 1 < count_list (names example_files_info) (likes (example_files_info ! 0))
    \<and> localtime_fixed 0 (date (example_files_info ! 0))
        = Inr \<lparr>tm_year = 2021, tm_mon = 5, tm_mday = 1, tm_hour = 10, tm_min = 0, tm_sec = 0\<rparr>)
   \<and> (2 < length example_files_info
    \<and> count_list (names example_files_info) (likes (example_files_info ! 2)) = 1)
   \<and> localtime_fixed 0 (date (example_files_info ! 1))
        = Inr \<lparr>tm_year = 2021, tm_mon = 5, tm_mday = 2, tm_hour = 10, tm_min = 0, tm_sec = 0\<rparr>
   \<and> assigned_names (localtime_fixed 0) example_files_info
       = [Inr ''5-01_05_2021'', Inr ''5-02_05_2021'', Inr ''7'']"
proof -
  let ?tm1 = "\<lparr>tm_year = 2021, tm_mon = 5, tm_mday = 1, tm_hour = 10, tm_min = 0, tm_sec = 0\<rparr>"
  let ?tm2 = "\<lparr>tm_year = 2021, tm_mon = 5, tm_mday = 2, tm_hour = 10, tm_min = 0, tm_sec = 0\<rparr>"
  have d: "date (example_files_info ! 0) = 1619863200" "date (example_files_info ! 1) = 1619949600"
    by (simp_all add: example_files_info_def)
  have l1: "localtime_fixed 0 (date (example_files_info ! 0)) = Inr ?tm1"
    unfolding d by code_simp
  have l2: "localtime_fixed 0 (date (example_files_info ! 1)) = Inr ?tm2"
    unfolding d by code_simp
  have n: "names example_files_info = [5, 5, 7]"
    by (simp add: names_def example_files_info_def)
  have lk: "likes (example_files_info ! 0) = 5" "likes (example_files_info ! 1) = 5"
    "likes (example_files_info ! 2) = 7" "length example_files_info = 3"
    by (simp_all add: example_files_info_def)
  have h1: "0 < length example_files_info
    \<and> 1 < count_list (names example_files_info) (likes (example_files_info ! 0))"
    by (simp add: n lk)
  have h2: "2 < length example_files_info
    \<and> count_list (names example_files_info) (likes (example_files_info ! 2)) = 1"
    by (simp add: n lk)
  have c: "calendar_date ?tm1 = (2021, 5, 1)" "calendar_date ?tm2 = (2021, 5, 2)"
    by (simp_all add: calendar_date_def)
  have e: "[example_files_info ! 0, example_files_info ! 1, example_files_info ! 2]
           = example_files_info"
    by (simp add: example_files_info_def)
  have "assigned_names (localtime_fixed 0)
          [example_files_info ! 0, example_files_info ! 1, example_files_info ! 2]
        = [Inr ''5-01_05_2021'', Inr ''5-02_05_2021'', Inr ''7'']"
    using assigned_name_by_multiplicity
      [of 0 example_files_info "localtime_fixed 0" ?tm1
          "example_files_info ! 0" "example_files_info ! 1" "example_files_info ! 2" ?tm1 ?tm2]
      lk l1 l2 c by blast
  with h1 h2 l1 l2 show ?thesis unfolding e by blast
qed

lemma minus_notin_str_int: "0 \<le> p \<Longrightarrow> CHR ''-'' \<notin> set (str_int p)"
  by (simp add: str_int_def minus_notin_str_nat)

lemma name_unique_neq_duplicate:
  "0 \<le> p \<Longrightarrow> str_int p \<noteq> str_int q @ ''-'' @ d"
proof
  assume "0 \<le> p" and "str_int p = str_int q @ ''-'' @ d"
  then have "CHR ''-'' \<in> set (str_int p)" by simp
  with \<open>0 \<le> p\<close> show False by (simp add: minus_notin_str_int)
qed

lemma name_duplicate_eq:
  assumes "0 \<le> p" and "0 \<le> q"
    and "str_int p @ ''-'' @ strftime_d_m_Y tm = str_int q @ ''-'' @ strftime_d_m_Y tm'"
  shows "p = q \<and> calendar_date tm = calendar_date tm'"
proof -
  from assms(3) have "str_int p @ CHR ''-'' # strftime_d_m_Y tm
                      = str_int q @ CHR ''-'' # strftime_d_m_Y tm'"
    by simp
  from split_at_separator [OF minus_notin_str_int [OF assms(1)] minus_notin_str_int [OF assms(2)] this]
  have "str_int p = str_int q" and "strftime_d_m_Y tm = strftime_d_m_Y tm'"
    by blast+
  then show ?thesis
    using str_int_inj [of p q] strftime_d_m_Y_inj [of tm tm'] by blast
qed

text \<open>
  C1. When all numbers of likes are non-negative and any two records with the same number
  of likes have timestamps on different local calendar dates, every record is given a name
  and the names are pairwise distinct. Conversely, two records with the same number of
  likes and the same local calendar date are given the same name.
\<close>

theorem assigned_names_distinct:
  "((\<forall>r \<in> set files_info. 0 \<le> likes r)
     \<and> (\<forall>i<length files_info. \<forall>j<length files_info.
           i \<noteq> j \<and> likes (files_info ! i) = likes (files_info ! j) \<longrightarrow>
           (\<exists>tm tm'. localtime (date (files_info ! i)) = Inr tm
                    \<and> localtime (date (files_info ! j)) = Inr tm'
                    \<and> calendar_date tm \<noteq> calendar_date tm')) \<longrightarrow>
    (\<exists>ns. assigned_names localtime files_info = map Inr ns \<and> distinct ns))
   \<and> (i < length files_info \<and> j < length files_info \<and> i \<noteq> j
       \<and> likes (files_info ! i) = likes (files_info ! j)
       \<and> localtime (date (files_info ! i)) = Inr tm
       \<and> localtime (date (files_info ! j)) = Inr tm'
       \<and> calendar_date tm = calendar_date tm' \<longrightarrow>
      assigned_names localtime files_info ! i = assigned_names localtime files_info ! j
      \<and> assigned_names localtime files_info ! i
          = Inr (str_int (likes (files_info ! i)) @ ''-'' @ strftime_d_m_Y tm))"
proof (intro conjI impI)
  let ?xs = "names files_info"
  let ?f = "filename localtime (duplicate_names files_info)"
  assume a: "(\<forall>r \<in> set files_info. 0 \<le> likes r)
     \<and> (\<forall>i<length files_info. \<forall>j<length files_info.
           i \<noteq> j \<and> likes (files_info ! i) = likes (files_info ! j) \<longrightarrow>
           (\<exists>tm tm'. localtime (date (files_info ! i)) = Inr tm
                    \<and> localtime (date (files_info ! j)) = Inr tm'
                    \<and> calendar_date tm \<noteq> calendar_date tm'))"
  have nonneg: "0 \<le> likes (files_info ! k)" if "k < length files_info" for k
    using a that by simp
  have dates: "\<exists>tm tm'. localtime (date (files_info ! k)) = Inr tm
                    \<and> localtime (date (files_info ! l)) = Inr tm'
                    \<and> calendar_date tm \<noteq> calendar_date tm'"
    if "k < length files_info" "l < length files_info" "k \<noteq> l"
       "likes (files_info ! k) = likes (files_info ! l)" for k l
    using a that by blast
  have dup: "\<exists>tm. localtime (date (files_info ! k)) = Inr tm"
    if k: "k < length files_info" and c: "1 < count_list ?xs (likes (files_info ! k))" for k
  proof -
    from k have "k < length ?xs" by (simp add: names_def)
    moreover from c k have "1 < count_list ?xs (?xs ! k)" by (simp add: names_nth)
    ultimately obtain l where "l < length ?xs" "l \<noteq> k" "?xs ! l = ?xs ! k"
      using count_list_gt1_only_if by blast
    with k have "l < length files_info" "k \<noteq> l" "likes (files_info ! k) = likes (files_info ! l)"
      by (simp_all add: names_def)
    with dates [OF k] show ?thesis by blast
  qed
  have isr: "\<exists>s. ?f (files_info ! k) = Inr s" if k: "k < length files_info" for k
  proof (cases "1 < count_list ?xs (likes (files_info ! k))")
    case True
    with dup [OF k] filename_duplicate [OF True] show ?thesis by metis
  next
    case False
    then show ?thesis by (simp add: filename_unique)
  qed
  define ns where "ns = map (\<lambda>r. projr (?f r)) files_info"
  have nth: "?f (files_info ! k) = Inr (ns ! k)" if k: "k < length files_info" for k
    using isr [OF k] k by (auto simp: ns_def)
  have "assigned_names localtime files_info = map Inr ns"
  proof (rule nth_equalityI)
    show "length (assigned_names localtime files_info) = length (map Inr ns)"
      by (simp add: ns_def assigned_names_def)
  next
    fix k
    assume "k < length (assigned_names localtime files_info)"
    then have k: "k < length files_info" by (simp add: assigned_names_def)
    then have "map Inr ns ! k = Inr (ns ! k)" by (simp add: ns_def)
    with nth [OF k] have "filename localtime (duplicate_names files_info) (files_info ! k)
                          = map Inr ns ! k"
      by (rule trans [OF _ sym])
    then show "assigned_names localtime files_info ! k = map Inr ns ! k"
      by (simp only: assigned_names_nth [OF k])
  qed
  moreover have "distinct ns"
    unfolding distinct_conv_nth
  proof (intro allI impI)
    fix k l
    assume k': "k < length ns" and l': "l < length ns" and kl: "k \<noteq> l"
    then have k: "k < length files_info" and l: "l < length files_info" by (simp_all add: ns_def)
    show "ns ! k \<noteq> ns ! l"
    proof
      assume eq: "ns ! k = ns ! l"
      with nth [OF k] nth [OF l] have feq: "?f (files_info ! k) = ?f (files_info ! l)" by simp
      show False
      proof (cases "1 < count_list ?xs (likes (files_info ! k))")
        case ck: True
        from dup [OF k ck] obtain tm where tm: "localtime (date (files_info ! k)) = Inr tm" ..
        show ?thesis
        proof (cases "1 < count_list ?xs (likes (files_info ! l))")
          case cl: True
          from dup [OF l cl] obtain tm' where tm': "localtime (date (files_info ! l)) = Inr tm'" ..
          from feq filename_duplicate [where localtime = localtime, OF ck tm] filename_duplicate [where localtime = localtime, OF cl tm']
          have "str_int (likes (files_info ! k)) @ ''-'' @ strftime_d_m_Y tm
                = str_int (likes (files_info ! l)) @ ''-'' @ strftime_d_m_Y tm'"
            by simp
          from name_duplicate_eq [OF nonneg [OF k] nonneg [OF l] this]
          have "likes (files_info ! k) = likes (files_info ! l)"
            and "calendar_date tm = calendar_date tm'" by simp_all
          with dates [OF k l kl] tm tm' show False by auto
        next
          case False
          with feq filename_duplicate [where localtime = localtime, OF ck tm] filename_unique [OF False, of localtime]
          have "str_int (likes (files_info ! l))
                = str_int (likes (files_info ! k)) @ ''-'' @ strftime_d_m_Y tm"
            by simp
          with name_unique_neq_duplicate [OF nonneg [OF l]] show False by blast
        qed
      next
        case nk: False
        show ?thesis
        proof (cases "1 < count_list ?xs (likes (files_info ! l))")
          case cl: True
          from dup [OF l cl] obtain tm' where tm': "localtime (date (files_info ! l)) = Inr tm'" ..
          with feq filename_duplicate [where localtime = localtime, OF cl tm'] filename_unique [OF nk, of localtime]
          have "str_int (likes (files_info ! k))
                = str_int (likes (files_info ! l)) @ ''-'' @ strftime_d_m_Y tm'"
            by simp
          with name_unique_neq_duplicate [OF nonneg [OF k]] show False by blast
        next
          case False
          with feq filename_unique [OF nk, of localtime] filename_unique [OF False, of localtime]
          have "likes (files_info ! k) = likes (files_info ! l)"
            by (simp add: str_int_inj)
          with k l have "?xs ! k = ?xs ! l" by (simp add: names_nth)
          moreover from k l have "k < length ?xs" "l < length ?xs" by (simp_all add: names_def)
          ultimately have "1 < count_list ?xs (?xs ! k)"
            using kl by (intro count_list_gt1_if [of k ?xs l]) simp_all
          with nk k show False by (simp add: names_nth)
        qed
      qed
    qed
  qed
  ultimately show "\<exists>ns. assigned_names localtime files_info = map Inr ns \<and> distinct ns"
    by blast
next
  let ?xs = "names files_info"
  assume b: "i < length files_info \<and> j < length files_info \<and> i \<noteq> j
       \<and> likes (files_info ! i) = likes (files_info ! j)
       \<and> localtime (date (files_info ! i)) = Inr tm
       \<and> localtime (date (files_info ! j)) = Inr tm'
       \<and> calendar_date tm = calendar_date tm'"
  then have "i < length ?xs" "j < length ?xs" "?xs ! i = ?xs ! j"
    by (simp_all add: names_def)
  with b have "1 < count_list ?xs (?xs ! i)"
    by (intro count_list_gt1_if [of i ?xs j]) simp_all
  with b have ci: "1 < count_list ?xs (likes (files_info ! i))"
    and cj: "1 < count_list ?xs (likes (files_info ! j))"
    by (simp_all add: names_nth)
  from b have ti: "localtime (date (files_info ! i)) = Inr tm"
    and tj: "localtime (date (files_info ! j)) = Inr tm'" by simp_all
  from b have "calendar_date tm = calendar_date tm'" by blast
  then have s: "strftime_d_m_Y tm = strftime_d_m_Y tm'" by (rule strftime_d_m_Y_cong)
  from b have i: "i < length files_info" and j: "j < length files_info"
    and lk: "likes (files_info ! i) = likes (files_info ! j)" by blast+
  have ni: "assigned_names localtime files_info ! i
            = Inr (str_int (likes (files_info ! i)) @ ''-'' @ strftime_d_m_Y tm)"
    using filename_duplicate [where localtime = localtime, OF ci ti]
    by (simp only: assigned_names_nth [OF i])
  have nj: "assigned_names localtime files_info ! j
            = Inr (str_int (likes (files_info ! j)) @ ''-'' @ strftime_d_m_Y tm')"
    using filename_duplicate [where localtime = localtime, OF cj tj]
    by (simp only: assigned_names_nth [OF j])
  show "assigned_names localtime files_info ! i
          = Inr (str_int (likes (files_info ! i)) @ ''-'' @ strftime_d_m_Y tm)"
    by (rule ni)
  show "assigned_names localtime files_info ! i = assigned_names localtime files_info ! j"
    by (simp only: ni nj lk s)
qed

lemma localtime_fixed_examples:
  "localtime_fixed 0 1619863200
   = Inr \<lparr>tm_year = 2021, tm_mon = 5, tm_mday = 1, tm_hour = 10, tm_min = 0, tm_sec = 0\<rparr>"
  "localtime_fixed 0 1619949600
   = Inr \<lparr>tm_year = 2021, tm_mon = 5, tm_mday = 2, tm_hour = 10, tm_min = 0, tm_sec = 0\<rparr>"
  "localtime_fixed 0 1619870400
   = Inr \<lparr>tm_year = 2021, tm_mon = 5, tm_mday = 1, tm_hour = 12, tm_min = 0, tm_sec = 0\<rparr>"
  by code_simp+

theorem assigned_names_distinct_witness:
  "names example_files_info = [5, 5, 7]
   \<and> (\<exists>ns. assigned_names (localtime_fixed 0) example_files_info = map Inr ns \<and> distinct ns)
   \<and> likes (example_same_day ! 0) = likes (example_same_day ! 1)
   \<and> assigned_names (localtime_fixed 0) example_same_day ! 0
       = assigned_names (localtime_fixed 0) example_same_day ! 1
   \<and> assigned_names (localtime_fixed 0) example_same_day ! 0 = Inr ''3-01_05_2021''"
proof -
  let ?tm1 = "\<lparr>tm_year = 2021, tm_mon = 5, tm_mday = 1, tm_hour = 10, tm_min = 0, tm_sec = 0\<rparr>"
  let ?tm2 = "\<lparr>tm_year = 2021, tm_mon = 5, tm_mday = 2, tm_hour = 10, tm_min = 0, tm_sec = 0\<rparr>"
  let ?tm3 = "\<lparr>tm_year = 2021, tm_mon = 5, tm_mday = 1, tm_hour = 12, tm_min = 0, tm_sec = 0\<rparr>"
  have nonneg: "\<forall>r \<in> set example_files_info. 0 \<le> likes r"
    by (simp add: example_files_info_def)
  have len: "length example_files_info = 3" by (simp add: example_files_info_def)
  have lk: "likes (example_files_info ! 0) = 5" "likes (example_files_info ! 1) = 5"
    "likes (example_files_info ! 2) = 7"
    by (simp_all add: example_files_info_def)
  have dt: "date (example_files_info ! 0) = 1619863200" "date (example_files_info ! 1) = 1619949600"
    by (simp_all add: example_files_info_def)
  have ne: "calendar_date ?tm1 \<noteq> calendar_date ?tm2" "calendar_date ?tm2 \<noteq> calendar_date ?tm1"
    by (simp_all add: calendar_date_def)
  have dates: "\<forall>i<length example_files_info. \<forall>j<length example_files_info.
           i \<noteq> j \<and> likes (example_files_info ! i) = likes (example_files_info ! j) \<longrightarrow>
           (\<exists>tm tm'. localtime_fixed 0 (date (example_files_info ! i)) = Inr tm
                    \<and> localtime_fixed 0 (date (example_files_info ! j)) = Inr tm'
                    \<and> calendar_date tm \<noteq> calendar_date tm')"
  proof (intro allI impI)
    fix i j
    assume i: "i < length example_files_info" and j: "j < length example_files_info"
      and ij: "i \<noteq> j \<and> likes (example_files_info ! i) = likes (example_files_info ! j)"
    from i len have "i = 0 \<or> i = 1 \<or> i = 2" by linarith
    moreover from j len have "j = 0 \<or> j = 1 \<or> j = 2" by linarith
    ultimately have "i = 0 \<and> j = 1 \<or> i = 1 \<and> j = 0"
      using ij lk by auto
    then show "\<exists>tm tm'. localtime_fixed 0 (date (example_files_info ! i)) = Inr tm
                    \<and> localtime_fixed 0 (date (example_files_info ! j)) = Inr tm'
                    \<and> calendar_date tm \<noteq> calendar_date tm'"
      using ne dt localtime_fixed_examples by metis
  qed
  have same: "0 < length example_same_day \<and> 1 < length example_same_day \<and> (0::nat) \<noteq> 1
       \<and> likes (example_same_day ! 0) = likes (example_same_day ! 1)
       \<and> localtime_fixed 0 (date (example_same_day ! 0)) = Inr ?tm1
       \<and> localtime_fixed 0 (date (example_same_day ! 1)) = Inr ?tm3
       \<and> calendar_date ?tm1 = calendar_date ?tm3"
    by (simp add: example_same_day_def localtime_fixed_examples calendar_date_def)
  have s: "str_int (likes (example_same_day ! 0)) @ ''-'' @ strftime_d_m_Y ?tm1 = ''3-01_05_2021''"
    unfolding example_same_day_def by code_simp
  from assigned_names_distinct
         [of example_files_info "localtime_fixed 0" 0 1 ?tm1 ?tm2] nonneg dates
  have d: "\<exists>ns. assigned_names (localtime_fixed 0) example_files_info = map Inr ns \<and> distinct ns"
    by blast
  from assigned_names_distinct
         [of example_same_day "localtime_fixed 0" 0 1 ?tm1 ?tm3] same
  have "assigned_names (localtime_fixed 0) example_same_day ! 0
          = assigned_names (localtime_fixed 0) example_same_day ! 1
        \<and> assigned_names (localtime_fixed 0) example_same_day ! 0
          = Inr (str_int (likes (example_same_day ! 0)) @ ''-'' @ strftime_d_m_Y ?tm1)"
    by blast
  then have "assigned_names (localtime_fixed 0) example_same_day ! 0
          = assigned_names (localtime_fixed 0) example_same_day ! 1
        \<and> assigned_names (localtime_fixed 0) example_same_day ! 0 = Inr ''3-01_05_2021''"
    unfolding s .
  moreover have "names example_files_info = [5, 5, 7]"
    by (simp add: names_def example_files_info_def)
  ultimately show ?thesis using d same by blast
qed

section \<open>Facts about \<^verbatim>\<open>response_processing\<close> and the trace\<close>

lemma response_processing_client_error:
  "400 \<le> status_code r \<Longrightarrow> status_code r < 500 \<Longrightarrow>
   response_processing r tr
   = (Inl (SystemExit None), tr @ [Print (''Client error '' @ str_int (status_code r))])"
  by (simp add: response_processing_def)

lemma response_processing_server_error:
  "500 \<le> status_code r \<Longrightarrow> status_code r < 600 \<Longrightarrow>
   response_processing r tr
   = (Inl (SystemExit None), tr @ [Print (''Server error '' @ str_int (status_code r))])"
  by (simp add: response_processing_def)

lemma response_processing_api_error:
  assumes "\<not> (400 \<le> status_code r \<and> status_code r < 600)" and "api_error_msg r = Some msg"
  shows "response_processing r tr = (Inl (SystemExit None), tr @ [Print_error msg])"
proof -
  from assms(2) obtain kvs err where b: "json_body r = Some (JObj kvs)"
    and e: "map_of kvs ''error'' = Some (JObj err)" and m: "map_of err ''error_msg'' = Some msg"
    by (auto simp: api_error_msg_def split: option.splits json.splits)
  from assms(1) have c: "\<not> (400 \<le> status_code r \<and> status_code r < 500)"
    "\<not> (500 \<le> status_code r \<and> status_code r < 600)" by auto
  show ?thesis
    by (simp add: response_processing_def c response_json_of_def b e m)
qed

lemma response_processing_terminal:
  "terminal_error r \<Longrightarrow>
   response_processing r tr = (Inl (SystemExit None), tr @ [error_message r])"
proof -
  assume t: "terminal_error r"
  show ?thesis
  proof (cases "400 \<le> status_code r \<and> status_code r < 500")
    case True
    then show ?thesis
      by (simp add: response_processing_client_error error_message_def)
  next
    case c: False
    show ?thesis
    proof (cases "500 \<le> status_code r \<and> status_code r < 600")
      case True
      with c show ?thesis
        by (simp add: response_processing_server_error error_message_def)
    next
      case False
      with c t obtain msg where m: "api_error_msg r = Some msg"
        by (auto simp: terminal_error_def)
      from c False have "\<not> (400 \<le> status_code r \<and> status_code r < 600)" by auto
      from response_processing_api_error [OF this m] c False m show ?thesis
        by (simp add: error_message_def)
    qed
  qed
qed

lemma response_processing_trace:
  "response_processing r tr = (res, tr') \<Longrightarrow>
   requests_of tr' = requests_of tr \<and> writes_of tr' = writes_of tr"
  by (auto simp: response_processing_def requests_of_def writes_of_def Let_def
           split: if_splits sum.splits)

lemma response_processing_ok:
  "response_processing r tr = (Inr u, tr') \<Longrightarrow>
   tr' = tr \<and> \<not> terminal_error r \<and> (\<exists>kvs. json_body r = Some (JObj kvs))"
proof -
  assume a: "response_processing r tr = (Inr u, tr')"
  have "\<not> terminal_error r"
  proof
    assume "terminal_error r"
    from response_processing_terminal [OF this, of tr] a show False by simp
  qed
  moreover from a have "tr' = tr"
    by (auto simp: response_processing_def Let_def split: if_splits sum.splits)
  moreover from a have "\<exists>kvs. json_body r = Some (JObj kvs)"
    by (cases "json_body r"; cases "the (json_body r)")
       (auto simp: response_processing_def Let_def response_json_of_def split: if_splits)
  ultimately show ?thesis by blast
qed

lemma send_trace:
  "send net req tr = (res, tr') \<Longrightarrow>
   tr' = tr @ [Request req] \<and> requests_of tr' = requests_of tr @ [req]
   \<and> writes_of tr' = writes_of tr
   \<and> res = (case net (length (requests_of tr)) of None \<Rightarrow> Inl RequestException | Some r \<Rightarrow> Inr r)"
  by (auto simp: send_def requests_of_def writes_of_def split: option.splits)

text \<open>
  C10. For a status from 400 to 599 the outcome of the validation does not depend on the
  body: it is the client error line (400 to 499) or the server error line (500 to 599)
  and \<^verbatim>\<open>SystemExit\<close>, whatever the body holds and also when the body is not JSON. For any
  other status the body is decoded: a body that is not JSON raises the decoding error.
\<close>

theorem status_checked_before_body:
  "(400 \<le> status_code r \<and> status_code r < 600 \<longrightarrow>
      response_processing (r\<lparr>json_body := b\<rparr>) tr = response_processing r tr)
   \<and> (400 \<le> status_code r \<and> status_code r < 500 \<longrightarrow>
      response_processing (r\<lparr>json_body := b\<rparr>) tr
      = (Inl (SystemExit None), tr @ [Print (''Client error '' @ str_int (status_code r))]))
   \<and> (500 \<le> status_code r \<and> status_code r < 600 \<longrightarrow>
      response_processing (r\<lparr>json_body := b\<rparr>) tr
      = (Inl (SystemExit None), tr @ [Print (''Server error '' @ str_int (status_code r))]))
   \<and> (\<not> (400 \<le> status_code r \<and> status_code r < 600) \<longrightarrow>
      response_processing (r\<lparr>json_body := None\<rparr>) tr = (Inl JSONDecodeError, tr))"
proof (intro conjI impI)
  assume "400 \<le> status_code r \<and> status_code r < 600"
  then show "response_processing (r\<lparr>json_body := b\<rparr>) tr = response_processing r tr"
    by (auto simp: response_processing_def Let_def)
next
  assume "400 \<le> status_code r \<and> status_code r < 500"
  then show "response_processing (r\<lparr>json_body := b\<rparr>) tr
      = (Inl (SystemExit None), tr @ [Print (''Client error '' @ str_int (status_code r))])"
    by (simp add: response_processing_client_error)
next
  assume "500 \<le> status_code r \<and> status_code r < 600"
  then show "response_processing (r\<lparr>json_body := b\<rparr>) tr
      = (Inl (SystemExit None), tr @ [Print (''Server error '' @ str_int (status_code r))])"
    by (simp add: response_processing_server_error)
next
  assume "\<not> (400 \<le> status_code r \<and> status_code r < 600)"
  then show "response_processing (r\<lparr>json_body := None\<rparr>) tr = (Inl JSONDecodeError, tr)"
    by (auto simp: response_processing_def Let_def response_json_of_def)
qed

theorem status_checked_before_body_witness:
  "response_processing \<lparr>status_code = 404, json_body = Some example_error_body\<rparr> []
     = (Inl (SystemExit None), [Print ''Client error 404''])
   \<and> response_processing \<lparr>status_code = 404, json_body = None\<rparr> []
     = (Inl (SystemExit None), [Print ''Client error 404''])
   \<and> response_processing \<lparr>status_code = 503, json_body = None\<rparr> []
     = (Inl (SystemExit None), [Print ''Server error 503''])
   \<and> response_processing \<lparr>status_code = 200, json_body = None\<rparr> [] = (Inl JSONDecodeError, [])"
proof -
  have s: "str_int 404 = ''404''" "str_int 503 = ''503''" by code_simp+
  have a: "response_processing \<lparr>status_code = 404, json_body = Some example_error_body\<rparr> []
     = (Inl (SystemExit None), [Print ''Client error 404''])"
    using status_checked_before_body
      [of "\<lparr>status_code = 404, json_body = None\<rparr>" "Some example_error_body" "[]"]
    by (auto simp: s)
  have b: "response_processing \<lparr>status_code = 404, json_body = None\<rparr> []
     = (Inl (SystemExit None), [Print ''Client error 404''])"
    using status_checked_before_body
      [of "\<lparr>status_code = 404, json_body = Some example_error_body\<rparr>" None "[]"]
    by (auto simp: s)
  have c: "response_processing \<lparr>status_code = 503, json_body = None\<rparr> []
     = (Inl (SystemExit None), [Print ''Server error 503''])"
    using status_checked_before_body
      [of "\<lparr>status_code = 503, json_body = Some example_error_body\<rparr>" None "[]"]
    by (auto simp: s)
  have d: "response_processing \<lparr>status_code = 200, json_body = None\<rparr> [] = (Inl JSONDecodeError, [])"
    using status_checked_before_body
      [of "\<lparr>status_code = 200, json_body = Some example_error_body\<rparr>" None "[]"]
    by auto
  from a b c d show ?thesis by blast
qed

section \<open>Facts about \<^verbatim>\<open>DiskClient\<close>\<close>

lemma create_dir_cases:
  assumes "create_dir net self dirname tr = (res, tr')"
  shows "requests_of tr' = requests_of tr @ [create_request self dirname]
         \<and> writes_of tr' = writes_of tr
         \<and> (case net (length (requests_of tr)) of
               None \<Rightarrow> res = Inl RequestException
             | Some r \<Rightarrow>
                 (terminal_error r \<longrightarrow>
                    res = Inl (SystemExit None)
                    \<and> tr' = tr @ [Request (create_request self dirname), error_message r])
                 \<and> (\<forall>j. res = Inr j \<longrightarrow> tr' = tr @ [Request (create_request self dirname)]
                        \<and> \<not> terminal_error r \<and> json_body r = Some j \<and> (\<exists>kvs. j = JObj kvs)))"
proof -
  let ?req = "create_request self dirname"
  obtain sres tr1 where s: "send net ?req tr = (sres, tr1)" by (cases "send net ?req tr")
  from send_trace [OF s] have tr1: "tr1 = tr @ [Request ?req]"
    and rq: "requests_of tr1 = requests_of tr @ [?req]"
    and wr: "writes_of tr1 = writes_of tr"
    and sres: "sres = (case net (length (requests_of tr)) of
                         None \<Rightarrow> Inl RequestException | Some r \<Rightarrow> Inr r)"
    by blast+
  have cd: "create_dir net self dirname tr =
     (case sres of
        Inl e \<Rightarrow> (Inl e, tr1)
      | Inr response \<Rightarrow>
         (case response_processing response tr1 of
            (Inl e, tr2) \<Rightarrow> (Inl e, tr2)
          | (Inr _, tr2) \<Rightarrow>
             (case response_json_of response of
                Inl e \<Rightarrow> (Inl e, tr2)
              | Inr response_json \<Rightarrow> (Inr response_json, tr2))))"
    using s by (simp add: create_dir_def)
  show ?thesis
  proof (cases "net (length (requests_of tr))")
    case None
    with sres have "sres = Inl RequestException" by simp
    with assms cd have "res = Inl RequestException" "tr' = tr1" by simp_all
    with rq wr None show ?thesis by simp
  next
    case (Some r)
    with sres have sres': "sres = Inr r" by simp
    obtain pres tr2 where p: "response_processing r tr1 = (pres, tr2)"
      by (cases "response_processing r tr1")
    from response_processing_trace [OF p]
    have rq2: "requests_of tr2 = requests_of tr1" and wr2: "writes_of tr2 = writes_of tr1"
      by blast+
    show ?thesis
    proof (cases pres)
      case (Inl e)
      with assms cd sres' p have r: "res = Inl e" "tr' = tr2" by simp_all
      have "terminal_error r \<longrightarrow> res = Inl (SystemExit None) \<and> tr' = tr @ [Request ?req, error_message r]"
      proof
        assume "terminal_error r"
        from response_processing_terminal [OF this, of tr1] p r Inl tr1
        show "res = Inl (SystemExit None) \<and> tr' = tr @ [Request ?req, error_message r]"
          by simp
      qed
      with r rq rq2 wr wr2 Some show ?thesis by simp
    next
      case (Inr u)
      with p have ok: "tr2 = tr1" "\<not> terminal_error r" "\<exists>kvs. json_body r = Some (JObj kvs)"
        using response_processing_ok [of r tr1 u tr2] by simp_all
      then obtain kvs where b: "json_body r = Some (JObj kvs)" by blast
      with assms cd sres' p Inr ok have "res = Inr (JObj kvs)" "tr' = tr1"
        by (simp_all add: response_json_of_def)
      with rq wr tr1 ok b Some show ?thesis by simp
    qed
  qed
qed

lemma upload_loop_step:
  assumes "upload_loop net localtime self dirname dups (info # rest) items tr = (res, tr')"
  obtains (name_error) e where "filename localtime dups info = Inl e" "res = Inl e" "tr' = tr"
  | (stopped) fname e where "filename localtime dups info = Inr fname"
      "res = Inl e"
      "requests_of tr' = requests_of tr @ [upload_request self dirname info fname]"
      "writes_of tr' = writes_of tr"
      "\<forall>r. net (length (requests_of tr)) = Some r \<longrightarrow> terminal_error r \<longrightarrow>
           res = Inl (SystemExit None)
           \<and> tr' = tr @ [Request (upload_request self dirname info fname), error_message r]"
  | (continued) fname r kvs h where "filename localtime dups info = Inr fname"
      "net (length (requests_of tr)) = Some r" "\<not> terminal_error r"
      "json_body r = Some (JObj kvs)" "map_of kvs ''href'' = Some h"
      "upload_loop net localtime self dirname dups rest
         (items @ [\<lparr>item_name = fname, item_href = h,
                    item_height = height info, item_width = width info\<rparr>])
         (tr @ [Request (upload_request self dirname info fname)]) = (res, tr')"
proof (cases "filename localtime dups info")
  case (Inl e)
  with assms have "res = Inl e" "tr' = tr" by simp_all
  with Inl show ?thesis by (rule name_error)
next
  case (Inr fname)
  let ?req = "upload_request self dirname info fname"
  obtain sres tr1 where s: "send net ?req tr = (sres, tr1)" by (cases "send net ?req tr")
  from send_trace [OF s] have tr1: "tr1 = tr @ [Request ?req]"
    and rq: "requests_of tr1 = requests_of tr @ [?req]"
    and wr: "writes_of tr1 = writes_of tr"
    and sres: "sres = (case net (length (requests_of tr)) of
                         None \<Rightarrow> Inl RequestException | Some r \<Rightarrow> Inr r)"
    by blast+
  have ul: "upload_loop net localtime self dirname dups (info # rest) items tr =
     (case sres of
        Inl e \<Rightarrow> (Inl e, tr1)
      | Inr response \<Rightarrow>
         (case response_processing response tr1 of
            (Inl e, tr2) \<Rightarrow> (Inl e, tr2)
          | (Inr _, tr2) \<Rightarrow>
             (case response_json_of response of
                Inl e \<Rightarrow> (Inl e, tr2)
              | Inr response_json \<Rightarrow>
                 (case subscript response_json ''href'' of
                    Inl e \<Rightarrow> (Inl e, tr2)
                  | Inr h \<Rightarrow>
                     upload_loop net localtime self dirname dups rest
                       (items @ [\<lparr>item_name = fname, item_href = h,
                                  item_height = height info, item_width = width info\<rparr>])
                       tr2))))"
    using s Inr by simp
  show ?thesis
  proof (cases "net (length (requests_of tr))")
    case None
    with sres have "sres = Inl RequestException" by simp
    with assms ul have "res = Inl RequestException" "tr' = tr1" by simp_all
    with rq wr None show ?thesis by (intro stopped [OF Inr]) simp_all
  next
    case (Some r)
    with sres have sres': "sres = Inr r" by simp
    obtain pres tr2 where p: "response_processing r tr1 = (pres, tr2)"
      by (cases "response_processing r tr1")
    from response_processing_trace [OF p]
    have rq2: "requests_of tr2 = requests_of tr1" and wr2: "writes_of tr2 = writes_of tr1"
      by blast+
    show ?thesis
    proof (cases pres)
      case (Inl e)
      with assms ul sres' p have r: "res = Inl e" "tr' = tr2" by simp_all
      have "terminal_error r \<longrightarrow> res = Inl (SystemExit None) \<and> tr' = tr @ [Request ?req, error_message r]"
      proof
        assume "terminal_error r"
        from response_processing_terminal [OF this, of tr1] p r Inl tr1
        show "res = Inl (SystemExit None) \<and> tr' = tr @ [Request ?req, error_message r]"
          by simp
      qed
      with r rq rq2 wr wr2 Some show ?thesis by (intro stopped [OF Inr]) simp_all
    next
      case u: (Inr u)
      with p have ok: "tr2 = tr1" "\<not> terminal_error r" "\<exists>kvs. json_body r = Some (JObj kvs)"
        using response_processing_ok [of r tr1 u tr2] by simp_all
      then obtain kvs where b: "json_body r = Some (JObj kvs)" by blast
      show ?thesis
      proof (cases "map_of kvs ''href''")
        case None
        with assms ul sres' p u ok b have "res = Inl KeyError" "tr' = tr1"
          by (simp_all add: response_json_of_def)
        with rq wr Some ok show ?thesis by (intro stopped [OF Inr]) simp_all
      next
        case h: (Some h)
        with assms ul sres' p u ok b tr1
        have "upload_loop net localtime self dirname dups rest
                (items @ [\<lparr>item_name = fname, item_href = h,
                           item_height = height info, item_width = width info\<rparr>])
                (tr @ [Request ?req]) = (res, tr')"
          by (simp add: response_json_of_def)
        with Inr Some ok(2) b h show ?thesis by (rule continued)
      qed
    qed
  qed
qed

lemma requests_of_snoc: "requests_of (tr @ [Request req]) = requests_of tr @ [req]"
  by (simp add: requests_of_def)

lemma writes_of_snoc_request: "writes_of (tr @ [Request req]) = writes_of tr"
  by (simp add: writes_of_def)

lemma upload_loop_writes:
  "upload_loop net localtime self dirname dups infos items tr = (res, tr') \<Longrightarrow>
   writes_of tr' = writes_of tr"
proof (induction infos arbitrary: items tr)
  case Nil
  then show ?case by simp
next
  case (Cons info rest)
  from Cons.prems show ?case
  proof (cases rule: upload_loop_step)
    case (name_error e)
    then show ?thesis by simp
  next
    case (stopped fname e)
    then show ?thesis by simp
  next
    case (continued fname r kvs h)
    from Cons.IH [OF continued(6)] show ?thesis by (simp add: writes_of_snoc_request)
  qed
qed

text \<open>A request answered by a terminal error is the last one of the loop.\<close>

lemma upload_loop_terminal:
  assumes "upload_loop net localtime self dirname dups infos items tr = (res, tr')"
    and "length (requests_of tr) \<le> k" and "k < length (requests_of tr')"
    and "net k = Some r" and "terminal_error r"
  shows "res = Inl (SystemExit None) \<and> length (requests_of tr') = Suc k
         \<and> (\<exists>tr0. tr' = tr0 @ [error_message r])"
  using assms
proof (induction infos arbitrary: items tr)
  case Nil
  then show ?case by simp
next
  case (Cons info rest)
  from Cons.prems(1) show ?case
  proof (cases rule: upload_loop_step)
    case (name_error e)
    with Cons.prems show ?thesis by simp
  next
    case (stopped fname e)
    with Cons.prems have k: "k = length (requests_of tr)" by simp
    with stopped(5) Cons.prems(4,5)
    have "res = Inl (SystemExit None)"
      and "tr' = tr @ [Request (upload_request self dirname info fname), error_message r]"
      by blast+
    with k stopped(3) show ?thesis by simp
  next
    case (continued fname r' kvs h)
    have "k \<noteq> length (requests_of tr)"
    proof
      assume "k = length (requests_of tr)"
      with continued(2,3) Cons.prems(4,5) show False by simp
    qed
    with Cons.prems(2)
    have "length (requests_of (tr @ [Request (upload_request self dirname info fname)])) \<le> k"
      by (simp add: requests_of_snoc)
    from Cons.IH [OF continued(6) this Cons.prems(3,4,5)] show ?thesis .
  qed
qed

lemma requests_of_append_requests:
  "requests_of (tr @ map Request rs) = requests_of tr @ rs"
  by (induction rs arbitrary: tr) (simp_all add: requests_of_def)

text \<open>What a loop that ran to its end has done.\<close>

lemma upload_loop_success:
  assumes "upload_loop net localtime self dirname dups infos items tr = (Inr items', tr')"
  shows "\<exists>new. items' = items @ new \<and> length new = length infos
     \<and> map (\<lambda>it. Inr (item_name it)) new = map (filename localtime dups) infos
     \<and> map item_height new = map height infos
     \<and> map item_width new = map width infos
     \<and> tr' = tr @ map Request
                   (map2 (\<lambda>info it. upload_request self dirname info (item_name it)) infos new)
     \<and> (\<forall>i<length infos. \<exists>r kvs. net (length (requests_of tr) + i) = Some r
            \<and> \<not> terminal_error r \<and> json_body r = Some (JObj kvs)
            \<and> map_of kvs ''href'' = Some (item_href (new ! i)))"
  using assms
proof (induction infos arbitrary: items tr)
  case Nil
  then show ?case by simp
next
  case (Cons info rest)
  from Cons.prems show ?case
  proof (cases rule: upload_loop_step)
    case (name_error e)
    then show ?thesis by simp
  next
    case (stopped fname e)
    then show ?thesis by simp
  next
    case (continued fname r kvs h)
    let ?it = "\<lparr>item_name = fname, item_href = h,
                item_height = height info, item_width = width info\<rparr>"
    let ?req = "upload_request self dirname info fname"
    from Cons.IH [OF continued(6)] obtain new where
      items': "items' = (items @ [?it]) @ new" and len: "length new = length rest"
      and nm: "map (\<lambda>it. Inr (item_name it)) new = map (filename localtime dups) rest"
      and hg: "map item_height new = map height rest"
      and wd: "map item_width new = map width rest"
      and tr': "tr' = (tr @ [Request ?req]) @ map Request
                   (map2 (\<lambda>info it. upload_request self dirname info (item_name it)) rest new)"
      and rs: "\<forall>i<length rest. \<exists>r kvs.
            net (length (requests_of (tr @ [Request ?req])) + i) = Some r
            \<and> \<not> terminal_error r \<and> json_body r = Some (JObj kvs)
            \<and> map_of kvs ''href'' = Some (item_href (new ! i))"
      by blast
    have "\<forall>i<length (info # rest). \<exists>r kvs. net (length (requests_of tr) + i) = Some r
            \<and> \<not> terminal_error r \<and> json_body r = Some (JObj kvs)
            \<and> map_of kvs ''href'' = Some (item_href ((?it # new) ! i))"
    proof (intro allI impI)
      fix i
      assume i: "i < length (info # rest)"
      show "\<exists>r kvs. net (length (requests_of tr) + i) = Some r
            \<and> \<not> terminal_error r \<and> json_body r = Some (JObj kvs)
            \<and> map_of kvs ''href'' = Some (item_href ((?it # new) ! i))"
      proof (cases i)
        case 0
        with continued(2-5) show ?thesis by simp
      next
        case (Suc j)
        with i have "j < length rest" by simp
        with rs have "\<exists>r kvs. net (length (requests_of (tr @ [Request ?req])) + j) = Some r
            \<and> \<not> terminal_error r \<and> json_body r = Some (JObj kvs)
            \<and> map_of kvs ''href'' = Some (item_href (new ! j))" by blast
        with Suc show ?thesis by (simp add: requests_of_snoc)
      qed
    qed
    moreover have "items' = items @ (?it # new)" using items' by simp
    moreover have "length (?it # new) = length (info # rest)" using len by simp
    moreover have "map (\<lambda>it. Inr (item_name it)) (?it # new)
                   = map (filename localtime dups) (info # rest)"
      using nm continued(1) by simp
    moreover have "map item_height (?it # new) = map height (info # rest)" using hg by simp
    moreover have "map item_width (?it # new) = map width (info # rest)" using wd by simp
    moreover have "tr' = tr @ map Request
         (map2 (\<lambda>info it. upload_request self dirname info (item_name it)) (info # rest) (?it # new))"
      using tr' by simp
    ultimately show ?thesis by blast
  qed
qed

lemma upload_files_unfold:
  assumes "create_dir net self dirname tr = (cres, tr1)"
  shows "upload_files net localtime now self files_info dirname tr =
     (case cres of
        Inl e \<Rightarrow> (Inl e, tr1)
      | Inr create_dir_json \<Rightarrow>
         (case subscript create_dir_json ''href'' of
            Inl e \<Rightarrow> (Inl e, tr1)
          | Inr h \<Rightarrow>
             (case upload_loop net localtime self dirname (duplicate_names files_info)
                     files_info [] tr1 of
                (Inl e, tr2) \<Rightarrow> (Inl e, tr2)
              | (Inr items, tr2) \<Rightarrow>
                 (Inr \<lparr>out_href = h, out_name = dirname, out_date = now,
                       out_count = length files_info, out_items = items\<rparr>, tr2))))"
  using assms by (simp add: upload_files_def)

text \<open>What a call of \<^verbatim>\<open>upload_files\<close> that returned has done.\<close>

lemma upload_files_success:
  assumes "upload_files net localtime now self files_info dirname tr = (Inr m, tr')"
  shows "out_name m = dirname \<and> out_date m = now \<and> out_count m = length files_info
     \<and> length (out_items m) = length files_info
     \<and> map (\<lambda>it. Inr (item_name it)) (out_items m) = assigned_names localtime files_info
     \<and> map item_height (out_items m) = map height files_info
     \<and> map item_width (out_items m) = map width files_info
     \<and> tr' = tr @ Request (create_request self dirname) # map Request
           (map2 (\<lambda>info it. upload_request self dirname info (item_name it))
              files_info (out_items m))
     \<and> (\<exists>r kvs. net (length (requests_of tr)) = Some r \<and> \<not> terminal_error r
           \<and> json_body r = Some (JObj kvs) \<and> map_of kvs ''href'' = Some (out_href m))
     \<and> (\<forall>i<length files_info. \<exists>r kvs. net (length (requests_of tr) + Suc i) = Some r
           \<and> \<not> terminal_error r \<and> json_body r = Some (JObj kvs)
           \<and> map_of kvs ''href'' = Some (item_href (out_items m ! i)))"
proof -
  obtain cres tr1 where c: "create_dir net self dirname tr = (cres, tr1)"
    by (cases "create_dir net self dirname tr")
  note uf = upload_files_unfold [OF c, of localtime now files_info]
  from assms uf obtain j where cres: "cres = Inr j" by (cases cres) simp_all
  from create_dir_cases [OF c] cres obtain r kvs where
    r: "net (length (requests_of tr)) = Some r" "\<not> terminal_error r" "json_body r = Some j"
       "j = JObj kvs"
    and tr1: "tr1 = tr @ [Request (create_request self dirname)]"
    by (cases "net (length (requests_of tr))") auto
  from assms uf cres obtain h where h: "subscript j ''href'' = Inr h"
    by (cases "subscript j ''href''") simp_all
  with r(4) have hk: "map_of kvs ''href'' = Some h" by (simp split: option.splits)
  obtain lres tr2 where l: "upload_loop net localtime self dirname (duplicate_names files_info)
                     files_info [] tr1 = (lres, tr2)"
    by (cases "upload_loop net localtime self dirname (duplicate_names files_info)
                     files_info [] tr1")
  from assms uf cres h l obtain items where lres: "lres = Inr items"
    by (cases lres) simp_all
  with assms uf cres h l have m: "m = \<lparr>out_href = h, out_name = dirname, out_date = now,
                       out_count = length files_info, out_items = items\<rparr>"
    and tr': "tr' = tr2" by simp_all
  from upload_loop_success [OF l [unfolded lres]] obtain new where
    new: "items = [] @ new" "length new = length files_info"
      "map (\<lambda>it. Inr (item_name it)) new
       = map (filename localtime (duplicate_names files_info)) files_info"
      "map item_height new = map height files_info"
      "map item_width new = map width files_info"
      "tr2 = tr1 @ map Request
           (map2 (\<lambda>info it. upload_request self dirname info (item_name it)) files_info new)"
      "\<forall>i<length files_info. \<exists>r kvs. net (length (requests_of tr1) + i) = Some r
            \<and> \<not> terminal_error r \<and> json_body r = Some (JObj kvs)
            \<and> map_of kvs ''href'' = Some (item_href (new ! i))"
    by blast
  from new(1) have items: "items = new" by simp
  have n1: "length (requests_of tr1) + i = length (requests_of tr) + Suc i" for i
    by (simp add: tr1 requests_of_snoc)
  have "\<exists>r kvs. net (length (requests_of tr)) = Some r \<and> \<not> terminal_error r
           \<and> json_body r = Some (JObj kvs) \<and> map_of kvs ''href'' = Some (out_href m)"
    using r hk m by simp
  moreover have "\<forall>i<length files_info. \<exists>r kvs. net (length (requests_of tr) + Suc i) = Some r
           \<and> \<not> terminal_error r \<and> json_body r = Some (JObj kvs)
           \<and> map_of kvs ''href'' = Some (item_href (out_items m ! i))"
    using new(7) unfolding n1 by (simp add: m items)
  moreover have "tr' = tr @ Request (create_request self dirname) # map Request
           (map2 (\<lambda>info it. upload_request self dirname info (item_name it))
              files_info (out_items m))"
    using new(6) by (simp add: tr' tr1 m items)
  ultimately show ?thesis
    using new(2-5) by (simp add: m items assigned_names_def)
qed

section \<open>The example run\<close>

lemma example_run:
  "upload_files example_net (localtime_fixed 0) 1620000000 (DiskClient ''OAuth t'')
     example_files_info ''reserve_copy'' []
   = (Inr example_manifest, map Request example_requests)"
  by code_simp

lemma example_run_other:
  "fst (upload_files example_net (localtime_fixed 0) 1 (DiskClient ''OAuth u'')
          example_files_info ''photos'' [Print []])
   = Inr (example_manifest\<lparr>out_name := ''photos'', out_date := 1\<rparr>)"
  by code_simp

section \<open>The manifest and the requests of a successful upload\<close>

text \<open>
  C5. After a call of \<^verbatim>\<open>upload_files\<close> that returned, \<^verbatim>\<open>count\<close> is the length of \<^verbatim>\<open>items\<close>
  and the number of records, and the items are in the order of the records: the item at
  each position has the name, height and width of the record at that position and the
  \<^verbatim>\<open>href\<close> of the answer to that record's upload request.
\<close>

theorem manifest_count_and_order:
  assumes "upload_files net localtime now self files_info dirname tr = (Inr m, tr')"
  shows "out_count m = length (out_items m) \<and> length (out_items m) = length files_info
     \<and> (\<forall>i<length files_info.
           assigned_names localtime files_info ! i = Inr (item_name (out_items m ! i))
           \<and> item_height (out_items m ! i) = height (files_info ! i)
           \<and> item_width (out_items m ! i) = width (files_info ! i)
           \<and> (\<exists>r kvs. net (length (requests_of tr) + Suc i) = Some r
                 \<and> json_body r = Some (JObj kvs)
                 \<and> map_of kvs ''href'' = Some (item_href (out_items m ! i))))"
proof -
  note s = upload_files_success [OF assms]
  from s have len: "length (out_items m) = length files_info"
    and cnt: "out_count m = length files_info" by blast+
  have "\<forall>i<length files_info.
           assigned_names localtime files_info ! i = Inr (item_name (out_items m ! i))
           \<and> item_height (out_items m ! i) = height (files_info ! i)
           \<and> item_width (out_items m ! i) = width (files_info ! i)
           \<and> (\<exists>r kvs. net (length (requests_of tr) + Suc i) = Some r
                 \<and> json_body r = Some (JObj kvs)
                 \<and> map_of kvs ''href'' = Some (item_href (out_items m ! i)))"
  proof (intro allI impI)
    fix i
    assume i: "i < length files_info"
    with len have i': "i < length (out_items m)" by simp
    from s have "map (\<lambda>it. Inr (item_name it)) (out_items m) ! i
                 = assigned_names localtime files_info ! i" by simp
    with i' have a: "assigned_names localtime files_info ! i = Inr (item_name (out_items m ! i))"
      by simp
    from s have "map item_height (out_items m) ! i = map height files_info ! i" by simp
    with i i' have b: "item_height (out_items m ! i) = height (files_info ! i)" by simp
    from s have "map item_width (out_items m) ! i = map width files_info ! i" by simp
    with i i' have c: "item_width (out_items m ! i) = width (files_info ! i)" by simp
    from s i have "\<exists>r kvs. net (length (requests_of tr) + Suc i) = Some r
                 \<and> json_body r = Some (JObj kvs)
                 \<and> map_of kvs ''href'' = Some (item_href (out_items m ! i))"
      by blast
    with a b c show "assigned_names localtime files_info ! i = Inr (item_name (out_items m ! i))
           \<and> item_height (out_items m ! i) = height (files_info ! i)
           \<and> item_width (out_items m ! i) = width (files_info ! i)
           \<and> (\<exists>r kvs. net (length (requests_of tr) + Suc i) = Some r
                 \<and> json_body r = Some (JObj kvs)
                 \<and> map_of kvs ''href'' = Some (item_href (out_items m ! i)))"
      by blast
  qed
  with len cnt show ?thesis by simp
qed

theorem manifest_count_and_order_witness:
  "upload_files example_net (localtime_fixed 0) 1620000000 (DiskClient ''OAuth t'')
     example_files_info ''reserve_copy'' []
   = (Inr example_manifest, map Request example_requests)
   \<and> out_count example_manifest = length (out_items example_manifest)
   \<and> length (out_items example_manifest) = length example_files_info
   \<and> item_height (out_items example_manifest ! 1) = height (example_files_info ! 1)"
  using manifest_count_and_order [OF example_run] example_run
  by (simp add: example_files_info_def)

text \<open>
  C6. A call of \<^verbatim>\<open>upload_files\<close> on N records that returned has sent exactly N + 1
  requests: first the PUT that creates the folder \<^verbatim>\<open>dirname\<close>, then for each record, in
  the order of the records, one POST to the upload address whose \<^verbatim>\<open>path\<close> is
  \<^verbatim>\<open>dirname/name\<close> with the name assigned to the record and whose \<^verbatim>\<open>url\<close> is the record's
  url. It has printed nothing and written nothing.
\<close>

theorem upload_requests:
  assumes "upload_files net localtime now self files_info dirname tr = (Inr m, tr')"
  shows "\<exists>rs. tr' = tr @ map Request rs \<and> length rs = length files_info + 1
     \<and> rs ! 0 = \<lparr>http_method = PUT, target = DiskClient_BASE_URL,
                  params = [(''path'', dirname)], headers = disk_headers self\<rparr>
     \<and> (\<forall>i<length files_info. \<exists>fname.
           assigned_names localtime files_info ! i = Inr fname
           \<and> rs ! Suc i = \<lparr>http_method = POST, target = DiskClient_BASE_URL @ ''/upload'',
                  params = [(''path'', dirname @ ''/'' @ fname), (''url'', url (files_info ! i))],
                  headers = disk_headers self\<rparr>)"
proof -
  note s = upload_files_success [OF assms]
  let ?ups = "map2 (\<lambda>info it. upload_request self dirname info (item_name it))
                files_info (out_items m)"
  let ?rs = "create_request self dirname # ?ups"
  from s have len: "length (out_items m) = length files_info" by blast
  from s have "tr' = tr @ map Request ?rs" by simp
  moreover from len have "length ?rs = length files_info + 1" by simp
  moreover have "?rs ! 0 = \<lparr>http_method = PUT, target = DiskClient_BASE_URL,
                  params = [(''path'', dirname)], headers = disk_headers self\<rparr>"
    by (simp add: create_request_def)
  moreover have "\<forall>i<length files_info. \<exists>fname.
           assigned_names localtime files_info ! i = Inr fname
           \<and> ?rs ! Suc i = \<lparr>http_method = POST, target = DiskClient_BASE_URL @ ''/upload'',
                  params = [(''path'', dirname @ ''/'' @ fname), (''url'', url (files_info ! i))],
                  headers = disk_headers self\<rparr>"
  proof (intro allI impI)
    fix i
    assume i: "i < length files_info"
    with len have i': "i < length (out_items m)" by simp
    from s have "map (\<lambda>it. Inr (item_name it)) (out_items m) ! i
                 = assigned_names localtime files_info ! i" by simp
    with i' have a: "assigned_names localtime files_info ! i = Inr (item_name (out_items m ! i))"
      by simp
    from i i' have "?rs ! Suc i
        = upload_request self dirname (files_info ! i) (item_name (out_items m ! i))"
      by simp
    with a show "\<exists>fname.
           assigned_names localtime files_info ! i = Inr fname
           \<and> ?rs ! Suc i = \<lparr>http_method = POST, target = DiskClient_BASE_URL @ ''/upload'',
                  params = [(''path'', dirname @ ''/'' @ fname), (''url'', url (files_info ! i))],
                  headers = disk_headers self\<rparr>"
      by (simp add: upload_request_def)
  qed
  ultimately show ?thesis by blast
qed

theorem upload_requests_witness:
  "upload_files example_net (localtime_fixed 0) 1620000000 (DiskClient ''OAuth t'')
     example_files_info ''reserve_copy'' []
   = (Inr example_manifest, map Request example_requests)
   \<and> (\<exists>rs. map Request example_requests = [] @ map Request rs
         \<and> length rs = length example_files_info + 1)"
proof -
  from upload_requests [OF example_run]
  have "\<exists>rs. map Request example_requests = [] @ map Request rs
         \<and> length rs = length example_files_info + 1"
    by blast
  with example_run show ?thesis by blast
qed

text \<open>
  C7. The naming gives one name for each record, in the order of the records; after a call
  of \<^verbatim>\<open>upload_files\<close> that returned, the names of the items are, position by position, the
  names computed for the records, and each item keeps the height and width of its record.
\<close>

theorem names_in_input_order:
  "length (assigned_names localtime files_info) = length files_info
   \<and> (upload_files net localtime now self files_info dirname tr = (Inr m, tr') \<longrightarrow>
        length (out_items m) = length files_info
        \<and> map (\<lambda>it. Inr (item_name it)) (out_items m)
            = map (filename localtime (duplicate_names files_info)) files_info
        \<and> map item_height (out_items m) = map height files_info
        \<and> map item_width (out_items m) = map width files_info)"
proof (intro conjI impI)
  show "length (assigned_names localtime files_info) = length files_info"
    by (simp add: assigned_names_def)
next
  assume a: "upload_files net localtime now self files_info dirname tr = (Inr m, tr')"
  note s = upload_files_success [OF a]
  from s show "length (out_items m) = length files_info" by blast
  from s show "map (\<lambda>it. Inr (item_name it)) (out_items m)
            = map (filename localtime (duplicate_names files_info)) files_info"
    by (simp add: assigned_names_def)
  from s show "map item_height (out_items m) = map height files_info" by blast
  from s show "map item_width (out_items m) = map width files_info" by blast
qed

theorem names_in_input_order_witness:
  "upload_files example_net (localtime_fixed 0) 1620000000 (DiskClient ''OAuth t'')
     example_files_info ''reserve_copy'' []
   = (Inr example_manifest, map Request example_requests)
   \<and> length (out_items example_manifest) = length example_files_info
   \<and> map (\<lambda>it. Inr (item_name it)) (out_items example_manifest)
       = map (filename (localtime_fixed 0) (duplicate_names example_files_info)) example_files_info
   \<and> map item_height (out_items example_manifest) = map height example_files_info"
  using names_in_input_order
    [of "localtime_fixed 0" example_files_info example_net 1620000000 "DiskClient ''OAuth t''"
        "''reserve_copy''" "[]" example_manifest "map Request example_requests"]
    example_run
  by simp

text \<open>
  C8. The names depend on the records and on the local time zone only: two calls of
  \<^verbatim>\<open>upload_files\<close> on the same records under the same \<^verbatim>\<open>localtime\<close> that returned give
  the same names, whatever the services answered, the clock, the token, the folder name
  and the trace before the call. Under another time zone the names may differ.
\<close>

theorem names_deterministic:
  assumes "upload_files net localtime now self files_info dirname tr = (Inr m, tr')"
    and "upload_files net2 localtime now2 self2 files_info dirname2 tr2 = (Inr m2, tr2')"
  shows "map item_name (out_items m) = map item_name (out_items m2)"
proof -
  from upload_files_success [OF assms(1)] upload_files_success [OF assms(2)]
  have "map (\<lambda>it. Inr (item_name it) :: exn + string) (out_items m)
        = map (\<lambda>it. Inr (item_name it)) (out_items m2)"
    by simp
  then have "map (Inr :: string \<Rightarrow> exn + string) (map item_name (out_items m))
             = map Inr (map item_name (out_items m2))"
    by (simp only: map_map comp_def)
  moreover have "inj (Inr :: string \<Rightarrow> exn + string)" by (rule injI) simp
  ultimately show ?thesis by (simp only: inj_map_eq_map)
qed

theorem names_deterministic_witness:
  "fst (upload_files example_net (localtime_fixed 0) 1620000000 (DiskClient ''OAuth t'')
          example_files_info ''reserve_copy'' []) = Inr example_manifest
   \<and> fst (upload_files example_net (localtime_fixed 0) 1 (DiskClient ''OAuth u'')
          example_files_info ''photos'' [Print []])
       = Inr (example_manifest\<lparr>out_name := ''photos'', out_date := 1\<rparr>)
   \<and> map item_name (out_items example_manifest)
       = map item_name (out_items (example_manifest\<lparr>out_name := ''photos'', out_date := 1\<rparr>))"
proof -
  obtain t where r2: "upload_files example_net (localtime_fixed 0) 1 (DiskClient ''OAuth u'')
          example_files_info ''photos'' [Print []]
        = (Inr (example_manifest\<lparr>out_name := ''photos'', out_date := 1\<rparr>), t)"
    using example_run_other
    by (cases "upload_files example_net (localtime_fixed 0) 1 (DiskClient ''OAuth u'')
          example_files_info ''photos'' [Print []]") simp
  from names_deterministic [OF example_run r2] example_run example_run_other
  show ?thesis by simp
qed

text \<open>
  Two records with 5 likes dated 00:00 UTC of 2021-05-01 and of 2021-05-02 are named by
  the dates 01_05_2021 and 02_05_2021 in a process under UTC, and by 30_04_2021 and
  01_05_2021 in a process one hour west of it.
\<close>

theorem names_depend_on_time_zone:
  "assigned_names (localtime_fixed 0) example_midnight
   \<noteq> assigned_names (localtime_fixed (- 3600)) example_midnight"
proof -
  have "assigned_names (localtime_fixed 0) example_midnight
        = [Inr ''5-01_05_2021'', Inr ''5-02_05_2021'']"
    by code_simp
  moreover have "assigned_names (localtime_fixed (- 3600)) example_midnight
        = [Inr ''5-30_04_2021'', Inr ''5-01_05_2021'']"
    by code_simp
  ultimately show ?thesis by simp
qed

section \<open>Terminal errors\<close>

lemma upload_files_writes:
  assumes "upload_files net localtime now self files_info dirname tr = (res, tr')"
  shows "writes_of tr' = writes_of tr"
proof -
  obtain cres tr1 where c: "create_dir net self dirname tr = (cres, tr1)"
    by (cases "create_dir net self dirname tr")
  note uf = upload_files_unfold [OF c, of localtime now files_info]
  from create_dir_cases [OF c] have w1: "writes_of tr1 = writes_of tr" by blast
  show ?thesis
  proof (cases cres)
    case (Inl e)
    with assms uf w1 show ?thesis by simp
  next
    case (Inr j)
    show ?thesis
    proof (cases "subscript j ''href''")
      case (Inl e)
      with assms uf w1 Inr show ?thesis by simp
    next
      case h: (Inr h)
      obtain lres tr2 where l: "upload_loop net localtime self dirname
           (duplicate_names files_info) files_info [] tr1 = (lres, tr2)"
        by (cases "upload_loop net localtime self dirname
           (duplicate_names files_info) files_info [] tr1")
      from assms uf Inr h l have "tr' = tr2" by (cases lres) simp_all
      with upload_loop_writes [OF l] w1 show ?thesis by simp
    qed
  qed
qed

lemma upload_files_terminal:
  assumes "upload_files net localtime now self files_info dirname tr = (res, tr')"
    and "length (requests_of tr) \<le> k" and "k < length (requests_of tr')"
    and "net k = Some r" and "terminal_error r"
  shows "res = Inl (SystemExit None) \<and> length (requests_of tr') = Suc k
         \<and> (\<exists>tr0. tr' = tr0 @ [error_message r])"
proof -
  obtain cres tr1 where c: "create_dir net self dirname tr = (cres, tr1)"
    by (cases "create_dir net self dirname tr")
  note uf = upload_files_unfold [OF c, of localtime now files_info]
  note cc = create_dir_cases [OF c]
  from cc have rq1: "requests_of tr1 = requests_of tr @ [create_request self dirname]"
    by blast
  show ?thesis
  proof (cases "k = length (requests_of tr)")
    case True
    with cc assms(4,5) have cres: "cres = Inl (SystemExit None)"
      and tr1: "tr1 = tr @ [Request (create_request self dirname), error_message r]"
      by simp_all
    with assms(1) uf have "res = Inl (SystemExit None)" "tr' = tr1" by simp_all
    with tr1 rq1 True show ?thesis by simp
  next
    case False
    with assms(2) have k: "length (requests_of tr1) \<le> k" by (simp add: rq1)
    show ?thesis
    proof (cases cres)
      case (Inl e)
      with assms(1) uf have "tr' = tr1" by simp
      with k assms(3) show ?thesis by simp
    next
      case (Inr j)
      show ?thesis
      proof (cases "subscript j ''href''")
        case (Inl e)
        with assms(1) uf Inr have "tr' = tr1" by simp
        with k assms(3) show ?thesis by simp
      next
        case h: (Inr h)
        obtain lres tr2 where l: "upload_loop net localtime self dirname
             (duplicate_names files_info) files_info [] tr1 = (lres, tr2)"
          by (cases "upload_loop net localtime self dirname
             (duplicate_names files_info) files_info [] tr1")
        from assms(1) uf Inr h l have tr': "tr' = tr2" by (cases lres) simp_all
        from upload_loop_terminal [OF l k assms(3) [unfolded tr'] assms(4,5)]
        have t: "lres = Inl (SystemExit None)" "length (requests_of tr2) = Suc k"
          "\<exists>tr0. tr2 = tr0 @ [error_message r]" by blast+
        from assms(1) uf Inr h l t(1) have "res = Inl (SystemExit None)" by simp
        with t tr' show ?thesis by simp
      qed
    qed
  qed
qed

lemma get_photos_info_terminal:
  assumes "net (length (requests_of tr)) = Some r" and "terminal_error r"
  shows "get_photos_info net self album_id tr
         = (Inl (SystemExit None),
            tr @ [Request \<lparr>http_method = GET, target = VKClient_BASE_URL @ ''/photos.get'',
                            params = vk_params self @ [(''album_id'', album_id)], headers = []\<rparr>,
                  error_message r])"
  using assms response_processing_terminal [OF assms(2)]
  by (simp add: get_photos_info_def send_def)

lemma input_trace:
  "input prompt stdin tr = (res, stdin', tr') \<Longrightarrow>
   tr' = tr @ [Prompt prompt] \<and> requests_of tr' = requests_of tr \<and> writes_of tr' = writes_of tr"
  by (auto simp: input_def requests_of_def writes_of_def split: list.splits)

lemma main_upload_terminal:
  assumes "main_upload env photos_info stdin tr = (res, tr')"
    and "length (requests_of tr) \<le> k" and "k < length (requests_of tr')"
    and "env_net env k = Some r" and "terminal_error r"
  shows "res = Inl (SystemExit None) \<and> (\<exists>tr0. tr' = tr0 @ [error_message r])
         \<and> writes_of tr' = writes_of tr"
proof -
  let ?tr0 = "tr @ [Print []]"
  have r0: "requests_of ?tr0 = requests_of tr" "writes_of ?tr0 = writes_of tr"
    by (simp_all add: requests_of_def writes_of_def)
  obtain i1 s1 tr1 where i1: "input ''Enter disk access token: '' stdin ?tr0 = (i1, s1, tr1)"
    by (cases "input ''Enter disk access token: '' stdin ?tr0") auto
  from input_trace [OF i1]
  have "requests_of tr1 = requests_of ?tr0" "writes_of tr1 = writes_of ?tr0" by blast+
  with r0 have r1: "requests_of tr1 = requests_of tr" "writes_of tr1 = writes_of tr"
    by (simp_all only:)
  show ?thesis
  proof (cases i1)
    case (Inl e)
    with assms(1) i1 have "tr' = tr1" by (simp add: main_upload_def)
    with r1 assms(2,3) show ?thesis by simp
  next
    case tok: (Inr disk_token)
    obtain i2 s2 tr2 where i2:
      "input ''Enter directory name (default: reserve_copy): '' s1 tr1 = (i2, s2, tr2)"
      by (cases "input ''Enter directory name (default: reserve_copy): '' s1 tr1") auto
    from input_trace [OF i2]
    have "requests_of tr2 = requests_of tr1" "writes_of tr2 = writes_of tr1" by blast+
    with r1 have r2: "requests_of tr2 = requests_of tr" "writes_of tr2 = writes_of tr"
      by (simp_all only:)
    show ?thesis
    proof (cases i2)
      case (Inl e)
      with assms(1) i1 tok i2 have "tr' = tr2" by (simp add: main_upload_def)
      with r2 assms(2,3) show ?thesis by simp
    next
      case dn: (Inr dirname)
      obtain ures tr3 where u: "upload_files (env_net env) (env_localtime env) (env_now env)
           (DiskClient disk_token) photos_info dirname tr2 = (ures, tr3)"
        by (cases "upload_files (env_net env) (env_localtime env) (env_now env)
           (DiskClient disk_token) photos_info dirname tr2")
      note w3 = upload_files_writes [OF u]
      show ?thesis
      proof (cases ures)
        case (Inl e)
        with assms(1) i1 tok i2 dn u have res: "res = Inl e" "tr' = tr3"
          by (simp_all add: main_upload_def)
        from assms(2) r2 have "length (requests_of tr2) \<le> k" by simp
        from upload_files_terminal [OF u this assms(3) [unfolded res(2)] assms(4,5)] Inl res w3 r2
        show ?thesis by simp
      next
        case (Inr m)
        have "length (requests_of tr3) \<le> k"
        proof (rule ccontr)
          assume "\<not> length (requests_of tr3) \<le> k"
          then have k3: "k < length (requests_of tr3)" by simp
          from assms(2) r2 have "length (requests_of tr2) \<le> k" by simp
          from upload_files_terminal [OF u this k3 assms(4,5)] Inr show False by simp
        qed
        moreover from assms(1) i1 tok i2 dn u Inr have "requests_of tr' = requests_of tr3"
          by (auto simp: main_upload_def requests_of_def split: if_splits)
        ultimately show ?thesis using assms(3) by simp
      qed
    qed
  qed
qed

lemma example_failing_run:
  "upload_files example_net_failing (localtime_fixed 0) 1620000000 (DiskClient ''OAuth t'')
     example_files_info ''reserve_copy'' []
   = (Inl (SystemExit None),
      map Request (take 2 example_requests) @ [Print ''Client error 404''])"
  by code_simp

lemma example_failing_main_upload:
  "main_upload example_env example_files_info [''OAuth t'', ''reserve_copy''] []
   = (Inl (SystemExit None),
      [Print [], Prompt ''Enter disk access token: '',
       Prompt ''Enter directory name (default: reserve_copy): '']
      @ map Request (take 2 example_requests) @ [Print ''Client error 404''])"
  by code_simp

lemma example_api_error_run:
  "get_photos_info example_net_api_error (VKClient ''vk1.a.token'' ''1'' ''5.199'') ''profile'' []
   = (Inl (SystemExit None),
      [Request \<lparr>http_method = GET, target = ''https://api.vk.com/method/photos.get'',
                params = [(''access_token'', ''vk1.a.token''), (''owner_id'', ''1''),
                          (''extended'', ''1''), (''v'', ''5.199''), (''album_id'', ''profile'')],
                headers = []\<rparr>,
       Print_error (JStr ''User authorization failed'')])"
  by code_simp

lemma example_terminal:
  "terminal_error \<lparr>status_code = 404,
                 json_body = Some (JObj [(''message'', JStr ''Resource not found.''),
                                         (''error'', JStr ''DiskNotFoundError'')])\<rparr>"
  "terminal_error \<lparr>status_code = 200, json_body = Some example_error_body\<rparr>"
  "terminal_error \<lparr>status_code = 503, json_body = None\<rparr>"
  by (simp_all add: terminal_error_def api_error_msg_def example_error_body_def)

text \<open>
  C3. The validation answers a status from 400 to 499 with the client error line and
  \<^verbatim>\<open>SystemExit\<close>, a status from 500 to 599 with the server error line and \<^verbatim>\<open>SystemExit\<close>,
  and a status from 200 to 299 whose body has an \<^verbatim>\<open>error\<close> object with an \<^verbatim>\<open>error_msg\<close>
  with the line of that message and \<^verbatim>\<open>SystemExit\<close>. Each of them ends the run: reading
  the album returns no list, \<^verbatim>\<open>upload_files\<close> returns no manifest and sends no further
  request, and the entry point writes no file.
\<close>

theorem terminal_errors:
  "(400 \<le> status_code r \<and> status_code r < 500 \<longrightarrow>
      response_processing r tr
      = (Inl (SystemExit None), tr @ [Print (''Client error '' @ str_int (status_code r))]))
   \<and> (500 \<le> status_code r \<and> status_code r < 600 \<longrightarrow>
      response_processing r tr
      = (Inl (SystemExit None), tr @ [Print (''Server error '' @ str_int (status_code r))]))
   \<and> (200 \<le> status_code r \<and> status_code r < 300 \<and> json_body r = Some (JObj kvs)
        \<and> map_of kvs ''error'' = Some (JObj err) \<and> map_of err ''error_msg'' = Some msg \<longrightarrow>
      response_processing r tr = (Inl (SystemExit None), tr @ [Print_error msg]))
   \<and> (terminal_error r \<and> net (length (requests_of tr)) = Some r \<longrightarrow>
      fst (get_photos_info net vk album_id tr) = Inl (SystemExit None)
      \<and> writes_of (snd (get_photos_info net vk album_id tr)) = writes_of tr)
   \<and> (terminal_error r \<and> net k = Some r \<and> length (requests_of tr) \<le> k
        \<and> upload_files net localtime now self files_info dirname tr = (res, tr')
        \<and> k < length (requests_of tr') \<longrightarrow>
      res = Inl (SystemExit None) \<and> length (requests_of tr') = Suc k
      \<and> writes_of tr' = writes_of tr)
   \<and> (terminal_error r \<and> env_net env k = Some r \<and> length (requests_of tr) \<le> k
        \<and> main_upload env photos_info stdin tr = (mres, mtr)
        \<and> k < length (requests_of mtr) \<longrightarrow>
      mres = Inl (SystemExit None) \<and> writes_of mtr = writes_of tr)"
proof (intro conjI impI)
  assume "400 \<le> status_code r \<and> status_code r < 500"
  then show "response_processing r tr
      = (Inl (SystemExit None), tr @ [Print (''Client error '' @ str_int (status_code r))])"
    by (simp add: response_processing_client_error)
next
  assume "500 \<le> status_code r \<and> status_code r < 600"
  then show "response_processing r tr
      = (Inl (SystemExit None), tr @ [Print (''Server error '' @ str_int (status_code r))])"
    by (simp add: response_processing_server_error)
next
  assume a: "200 \<le> status_code r \<and> status_code r < 300 \<and> json_body r = Some (JObj kvs)
        \<and> map_of kvs ''error'' = Some (JObj err) \<and> map_of err ''error_msg'' = Some msg"
  then have "\<not> (400 \<le> status_code r \<and> status_code r < 600)" by simp
  moreover from a have "api_error_msg r = Some msg" by (simp add: api_error_msg_def)
  ultimately show "response_processing r tr = (Inl (SystemExit None), tr @ [Print_error msg])"
    by (rule response_processing_api_error)
next
  assume a: "terminal_error r \<and> net (length (requests_of tr)) = Some r"
  then have g: "get_photos_info net vk album_id tr
         = (Inl (SystemExit None),
            tr @ [Request \<lparr>http_method = GET, target = VKClient_BASE_URL @ ''/photos.get'',
                            params = vk_params vk @ [(''album_id'', album_id)], headers = []\<rparr>,
                  error_message r])"
    by (intro get_photos_info_terminal) simp_all
  show "fst (get_photos_info net vk album_id tr) = Inl (SystemExit None)"
    by (simp add: g)
  show "writes_of (snd (get_photos_info net vk album_id tr)) = writes_of tr"
    by (cases "error_message r")
       (simp_all add: g writes_of_def error_message_def split: if_splits)
next
  assume a: "terminal_error r \<and> net k = Some r \<and> length (requests_of tr) \<le> k
        \<and> upload_files net localtime now self files_info dirname tr = (res, tr')
        \<and> k < length (requests_of tr')"
  then have u: "upload_files net localtime now self files_info dirname tr = (res, tr')"
    and k: "length (requests_of tr) \<le> k" "k < length (requests_of tr')"
    and r: "net k = Some r" "terminal_error r" by blast+
  from upload_files_terminal [OF u k r]
  show "res = Inl (SystemExit None)" and "length (requests_of tr') = Suc k" by blast+
  from upload_files_writes [OF u] show "writes_of tr' = writes_of tr" .
next
  assume a: "terminal_error r \<and> env_net env k = Some r \<and> length (requests_of tr) \<le> k
        \<and> main_upload env photos_info stdin tr = (mres, mtr)
        \<and> k < length (requests_of mtr)"
  then have u: "main_upload env photos_info stdin tr = (mres, mtr)"
    and k: "length (requests_of tr) \<le> k" "k < length (requests_of mtr)"
    and r: "env_net env k = Some r" "terminal_error r" by blast+
  from main_upload_terminal [OF u k r]
  show "mres = Inl (SystemExit None)" and "writes_of mtr = writes_of tr" by blast+
qed

theorem terminal_errors_witness:
  "response_processing \<lparr>status_code = 404, json_body = None\<rparr> []
     = (Inl (SystemExit None), [Print ''Client error 404''])
   \<and> response_processing \<lparr>status_code = 503, json_body = None\<rparr> []
     = (Inl (SystemExit None), [Print ''Server error 503''])
   \<and> response_processing \<lparr>status_code = 200, json_body = Some example_error_body\<rparr> []
     = (Inl (SystemExit None), [Print_error (JStr ''User authorization failed'')])
   \<and> fst (get_photos_info example_net_api_error (VKClient ''vk1.a.token'' ''1'' ''5.199'')
             ''profile'' []) = Inl (SystemExit None)
   \<and> fst (upload_files example_net_failing (localtime_fixed 0) 1620000000 (DiskClient ''OAuth t'')
             example_files_info ''reserve_copy'' []) = Inl (SystemExit None)
   \<and> length (requests_of (snd (upload_files example_net_failing (localtime_fixed 0) 1620000000
             (DiskClient ''OAuth t'') example_files_info ''reserve_copy'' []))) = 2
   \<and> fst (main_upload example_env example_files_info [''OAuth t'', ''reserve_copy''] [])
       = Inl (SystemExit None)
   \<and> writes_of (snd (main_upload example_env example_files_info [''OAuth t'', ''reserve_copy''] []))
       = []"
proof -
  let ?r404 = "\<lparr>status_code = 404,
                 json_body = Some (JObj [(''message'', JStr ''Resource not found.''),
                                         (''error'', JStr ''DiskNotFoundError'')])\<rparr>"
  let ?r200 = "\<lparr>status_code = 200, json_body = Some example_error_body\<rparr>"
  have s: "str_int 404 = ''404''" "str_int 503 = ''503''" by code_simp+
  have a: "response_processing \<lparr>status_code = 404, json_body = None\<rparr> []
     = (Inl (SystemExit None), [Print ''Client error 404''])"
    using terminal_errors [where r = "\<lparr>status_code = 404, json_body = None\<rparr>" and tr = "[]"]
    by (simp add: s)
  have b: "response_processing \<lparr>status_code = 503, json_body = None\<rparr> []
     = (Inl (SystemExit None), [Print ''Server error 503''])"
    using terminal_errors [where r = "\<lparr>status_code = 503, json_body = None\<rparr>" and tr = "[]"]
    by (simp add: s)
  have c: "response_processing ?r200 []
     = (Inl (SystemExit None), [Print_error (JStr ''User authorization failed'')])"
    using terminal_errors [where r = ?r200 and tr = "[]"
        and kvs = "[(''error'', JObj [(''error_code'', JNum 5),
                                      (''error_msg'', JStr ''User authorization failed'')])]"
        and err = "[(''error_code'', JNum 5), (''error_msg'', JStr ''User authorization failed'')]"
        and msg = "JStr ''User authorization failed''"]
    by (simp add: example_error_body_def)
  have d: "fst (get_photos_info example_net_api_error (VKClient ''vk1.a.token'' ''1'' ''5.199'')
             ''profile'' []) = Inl (SystemExit None)"
    using terminal_errors [where r = ?r200 and tr = "[]" and net = example_net_api_error
        and vk = "VKClient ''vk1.a.token'' ''1'' ''5.199''" and album_id = "''profile''"]
      example_terminal(2)
    by (simp add: example_net_api_error_def requests_of_def)
  have n1: "example_net_failing 1 = Some ?r404" by (simp add: example_net_failing_def)
  have rq: "length (requests_of (map Request (take 2 example_requests) @ [Print ''Client error 404''])) = 2"
    by (simp add: example_requests_def requests_of_def)
  have e: "fst (upload_files example_net_failing (localtime_fixed 0) 1620000000
                 (DiskClient ''OAuth t'') example_files_info ''reserve_copy'' [])
             = Inl (SystemExit None)
           \<and> length (requests_of (snd (upload_files example_net_failing (localtime_fixed 0)
                 1620000000 (DiskClient ''OAuth t'') example_files_info ''reserve_copy'' []))) = 2"
    using terminal_errors [where r = ?r404 and tr = "[]" and net = example_net_failing and k = 1
        and localtime = "localtime_fixed 0" and now = 1620000000 and self = "DiskClient ''OAuth t''"
        and files_info = example_files_info and dirname = "''reserve_copy''"
        and res = "Inl (SystemExit None)"
        and tr' = "map Request (take 2 example_requests) @ [Print ''Client error 404'']"]
      example_terminal(1) n1 example_failing_run rq
    by (simp add: requests_of_def)
  let ?mtr = "[Print [], Prompt ''Enter disk access token: '',
       Prompt ''Enter directory name (default: reserve_copy): '']
      @ map Request (take 2 example_requests) @ [Print ''Client error 404'']"
  have rq': "length (requests_of ?mtr) = 2"
    by (simp add: example_requests_def requests_of_def)
  have n1': "env_net example_env 1 = Some ?r404"
    by (simp add: example_env_def example_net_failing_def)
  have f: "fst (main_upload example_env example_files_info [''OAuth t'', ''reserve_copy''] [])
             = Inl (SystemExit None)
           \<and> writes_of (snd (main_upload example_env example_files_info
                 [''OAuth t'', ''reserve_copy''] [])) = []"
    using terminal_errors [where r = ?r404 and tr = "[]" and env = example_env and k = 1
        and photos_info = example_files_info and stdin = "[''OAuth t'', ''reserve_copy'']"
        and mres = "Inl (SystemExit None)" and mtr = ?mtr]
      example_terminal(1) n1' example_failing_main_upload rq'
    by (simp add: requests_of_def writes_of_def)
  from a b c d e f show ?thesis by blast
qed

text \<open>
  C4. For every terminal error the validation prints one line that names the error and
  raises \<^verbatim>\<open>SystemExit\<close> without an exit code, so the process ends with exit status 0. In
  the entry point this happens before the output file is written: the run ends with the
  printed line and no file is written. The same holds when the album is read.
\<close>

theorem terminal_error_halts:
  "(terminal_error r \<longrightarrow>
      response_processing r tr = (Inl (SystemExit None), tr @ [error_message r])
      \<and> exit_status (fst (response_processing r tr)) = 0)
   \<and> (terminal_error r \<and> net (length (requests_of tr)) = Some r
        \<and> get_photos_info net vk album_id tr = (gres, gtr) \<longrightarrow>
      gres = Inl (SystemExit None) \<and> (\<exists>tr0. gtr = tr0 @ [error_message r])
      \<and> writes_of gtr = writes_of tr)
   \<and> (terminal_error r \<and> env_net env k = Some r \<and> length (requests_of tr) \<le> k
        \<and> main_upload env photos_info stdin tr = (res, tr')
        \<and> k < length (requests_of tr') \<longrightarrow>
      res = Inl (SystemExit None) \<and> exit_status res = 0
      \<and> (\<exists>tr0. tr' = tr0 @ [error_message r]) \<and> writes_of tr' = writes_of tr)"
proof (intro conjI impI)
  assume t: "terminal_error r"
  from response_processing_terminal [OF t]
  show "response_processing r tr = (Inl (SystemExit None), tr @ [error_message r])" .
  then show "exit_status (fst (response_processing r tr)) = 0" by simp
next
  assume a: "terminal_error r \<and> net (length (requests_of tr)) = Some r
        \<and> get_photos_info net vk album_id tr = (gres, gtr)"
  let ?req = "\<lparr>http_method = GET, target = VKClient_BASE_URL @ ''/photos.get'',
                params = vk_params vk @ [(''album_id'', album_id)], headers = []\<rparr>"
  from a have "get_photos_info net vk album_id tr
         = (Inl (SystemExit None), tr @ [Request ?req, error_message r])"
    by (intro get_photos_info_terminal) simp_all
  with a have g: "gres = Inl (SystemExit None)" "gtr = (tr @ [Request ?req]) @ [error_message r]"
    by simp_all
  from g show "gres = Inl (SystemExit None)" by simp
  from g show "\<exists>tr0. gtr = tr0 @ [error_message r]" by blast
  from g show "writes_of gtr = writes_of tr"
    by (cases "error_message r")
       (simp_all add: writes_of_def error_message_def split: if_splits)
next
  assume a: "terminal_error r \<and> env_net env k = Some r \<and> length (requests_of tr) \<le> k
        \<and> main_upload env photos_info stdin tr = (res, tr')
        \<and> k < length (requests_of tr')"
  then have u: "main_upload env photos_info stdin tr = (res, tr')"
    and k: "length (requests_of tr) \<le> k" "k < length (requests_of tr')"
    and r: "env_net env k = Some r" "terminal_error r" by blast+
  from main_upload_terminal [OF u k r]
  show "res = Inl (SystemExit None)" and "\<exists>tr0. tr' = tr0 @ [error_message r]"
    and "writes_of tr' = writes_of tr" by blast+
  then show "exit_status res = 0" by simp
qed

theorem terminal_error_halts_witness:
  "terminal_error \<lparr>status_code = 503, json_body = None\<rparr>
   \<and> response_processing \<lparr>status_code = 503, json_body = None\<rparr> []
       = (Inl (SystemExit None), [Print ''Server error 503''])
   \<and> fst (get_photos_info example_net_api_error (VKClient ''vk1.a.token'' ''1'' ''5.199'')
             ''profile'' []) = Inl (SystemExit None)
   \<and> fst (main_upload example_env example_files_info [''OAuth t'', ''reserve_copy''] [])
       = Inl (SystemExit None)
   \<and> writes_of (snd (main_upload example_env example_files_info [''OAuth t'', ''reserve_copy''] []))
       = []"
proof -
  let ?r404 = "\<lparr>status_code = 404,
                 json_body = Some (JObj [(''message'', JStr ''Resource not found.''),
                                         (''error'', JStr ''DiskNotFoundError'')])\<rparr>"
  let ?r200 = "\<lparr>status_code = 200, json_body = Some example_error_body\<rparr>"
  let ?r503 = "\<lparr>status_code = 503, json_body = None\<rparr>"
  have s: "str_int 503 = ''503''" by code_simp
  have a: "response_processing ?r503 [] = (Inl (SystemExit None), [Print ''Server error 503''])"
    using terminal_error_halts [where r = ?r503 and tr = "[]"] example_terminal(3)
    by (simp add: error_message_def s)
  obtain gres gtr where g: "get_photos_info example_net_api_error
      (VKClient ''vk1.a.token'' ''1'' ''5.199'') ''profile'' [] = (gres, gtr)"
    by (cases "get_photos_info example_net_api_error
      (VKClient ''vk1.a.token'' ''1'' ''5.199'') ''profile'' []")
  have n0: "example_net_api_error (length (requests_of [])) = Some ?r200"
    by (simp add: example_net_api_error_def)
  from terminal_error_halts [where r = ?r200 and tr = "[]" and net = example_net_api_error
        and vk = "VKClient ''vk1.a.token'' ''1'' ''5.199''" and album_id = "''profile''"
        and gres = gres and gtr = gtr]
      example_terminal(2) n0 g
  have "gres = Inl (SystemExit None)" by blast
  with g have b: "fst (get_photos_info example_net_api_error
      (VKClient ''vk1.a.token'' ''1'' ''5.199'') ''profile'' []) = Inl (SystemExit None)"
    by simp
  let ?mtr = "[Print [], Prompt ''Enter disk access token: '',
       Prompt ''Enter directory name (default: reserve_copy): '']
      @ map Request (take 2 example_requests) @ [Print ''Client error 404'']"
  have rq: "length (requests_of []) \<le> (1::nat)" "1 < length (requests_of ?mtr)"
    by (simp_all add: example_requests_def requests_of_def)
  have n1: "env_net example_env 1 = Some ?r404"
    by (simp add: example_env_def example_net_failing_def)
  have w: "writes_of [] = []" by (simp add: writes_of_def)
  from terminal_error_halts [where r = ?r404 and tr = "[]" and env = example_env and k = 1
        and photos_info = example_files_info and stdin = "[''OAuth t'', ''reserve_copy'']"
        and res = "Inl (SystemExit None)" and tr' = ?mtr]
      example_terminal(1) n1 example_failing_main_upload rq
  have "writes_of ?mtr = writes_of []" by blast
  with example_failing_main_upload w
  have c: "fst (main_upload example_env example_files_info [''OAuth t'', ''reserve_copy''] [])
             = Inl (SystemExit None)
           \<and> writes_of (snd (main_upload example_env example_files_info
                 [''OAuth t'', ''reserve_copy''] [])) = []"
    by simp
  from a b c example_terminal(3) show ?thesis by blast
qed

text \<open>
  A run stopped by a 404 of the storage service has printed the client error line and ends
  with exit status 0.
\<close>

theorem terminal_error_exit_status_zero:
  "env_net example_env 1
     = Some \<lparr>status_code = 404,
             json_body = Some (JObj [(''message'', JStr ''Resource not found.''),
                                     (''error'', JStr ''DiskNotFoundError'')])\<rparr>
   \<and> last (snd (main_upload example_env example_files_info [''OAuth t'', ''reserve_copy''] []))
       = Print ''Client error 404''
   \<and> exit_status (fst (main_upload example_env example_files_info
                         [''OAuth t'', ''reserve_copy''] [])) = 0"
  by (simp add: example_failing_main_upload) (simp add: example_env_def example_net_failing_def)

section \<open>The entry point\<close>

lemma call_get_photos_info_no_argument:
  "call_get_photos_info net vk [] tr = (Inl TypeError, tr)"
  by (simp add: call_get_photos_info_def)

lemma call_VKClient_three:
  "call_VKClient [vk_token, user_id, album_id] = Inr (VKClient vk_token user_id album_id)"
  by (simp add: call_VKClient_def VKClient_parameters_def)

lemma main_cases:
  "main env =
     (case env_vk_token env of
        Inl e \<Rightarrow> (Inl e, [])
      | Inr vk_token \<Rightarrow>
         (case env_stdin env of
            [] \<Rightarrow> (Inl EOFError, [Prompt ''Enter vk user id: ''])
          | [user_id] \<Rightarrow>
              (Inl EOFError,
               [Prompt ''Enter vk user id: '',
                Prompt (''Enter album id ('' @ [CHR 0x27] @ ''profile'' @ [CHR 0x27] @ '' by default): '')])
          | user_id # album_id # rest \<Rightarrow>
              (Inl TypeError,
               [Prompt ''Enter vk user id: '',
                Prompt (''Enter album id ('' @ [CHR 0x27] @ ''profile'' @ [CHR 0x27] @ '' by default): '')])))"
  by (simp add: main_def input_def call_VKClient_three call_get_photos_info_no_argument Let_def
           split: sum.splits list.splits)

text \<open>
  C9. The entry point never completes a run. It passes the album id as the third
  positional argument of \<^verbatim>\<open>VKClient\<close>, where it is bound to \<^verbatim>\<open>version\<close> and sent as \<^verbatim>\<open>v\<close>,
  and calls \<^verbatim>\<open>get_photos_info\<close> with no argument for the required \<^verbatim>\<open>album_id\<close>: the call
  raises \<^verbatim>\<open>TypeError\<close>. Every run ends with an exception, has sent no request and has
  written no file; a run that got the token and the two lines of input ends with that
  \<^verbatim>\<open>TypeError\<close>.
\<close>

theorem main_never_succeeds:
  "(\<exists>e. fst (main env) = Inl e)
   \<and> requests_of (snd (main env)) = []
   \<and> writes_of (snd (main env)) = []
   \<and> bind_args VKClient_parameters [vk_token, user_id, album_id]
       = Inr [(''vk_token'', vk_token), (''user_id'', user_id), (''version'', album_id)]
   \<and> call_VKClient [vk_token, user_id, album_id]
       = Inr \<lparr>vk_params = [(''access_token'', vk_token), (''owner_id'', user_id),
                            (''extended'', ''1''), (''v'', album_id)]\<rparr>
   \<and> call_get_photos_info net vk [] tr = (Inl TypeError, tr)
   \<and> (env_vk_token env = Inr vk_token \<and> env_stdin env = user_id # album_id # rest \<longrightarrow>
        fst (main env) = Inl TypeError \<and> exit_status (fst (main env)) = 1)"
proof (intro conjI impI)
  show "\<exists>e. fst (main env) = Inl e"
    by (simp add: main_cases split: sum.splits list.splits)
  show "requests_of (snd (main env)) = []"
    by (simp add: main_cases requests_of_def split: sum.splits list.splits)
  show "writes_of (snd (main env)) = []"
    by (simp add: main_cases writes_of_def split: sum.splits list.splits)
  show "bind_args VKClient_parameters [vk_token, user_id, album_id]
       = Inr [(''vk_token'', vk_token), (''user_id'', user_id), (''version'', album_id)]"
    by (simp add: VKClient_parameters_def)
  show "call_VKClient [vk_token, user_id, album_id]
       = Inr \<lparr>vk_params = [(''access_token'', vk_token), (''owner_id'', user_id),
                            (''extended'', ''1''), (''v'', album_id)]\<rparr>"
    by (simp add: call_VKClient_three VKClient_def)
  show "call_get_photos_info net vk [] tr = (Inl TypeError, tr)"
    by (rule call_get_photos_info_no_argument)
next
  assume a: "env_vk_token env = Inr vk_token \<and> env_stdin env = user_id # album_id # rest"
  then show "fst (main env) = Inl TypeError" by (simp add: main_cases)
  then show "exit_status (fst (main env)) = 1" by simp
qed

theorem main_never_succeeds_witness:
  "env_vk_token example_env = Inr ''vk1.a.token''
   \<and> env_stdin example_env = ''1'' # [] # [''OAuth t'', ''reserve_copy'']
   \<and> fst (main example_env) = Inl TypeError
   \<and> requests_of (snd (main example_env)) = []
   \<and> writes_of (snd (main example_env)) = []"
  using main_never_succeeds [where env = example_env and vk_token = "''vk1.a.token''"
      and user_id = "''1''" and album_id = "[]" and rest = "[''OAuth t'', ''reserve_copy'']"]
  by (simp add: example_env_def)

end
